theory Spec2Isabelle
  imports Complex_Main
begin

section \<open>JavaScript numbers in real arithmetic\<close>

text \<open>
  The geometry of \<^verbatim>\<open>src/src/math.js\<close> computes with JavaScript numbers, which are
  IEEE 754 binary64 values. The code is read in two ways. In this section and the four
  that follow it a number is an exact real or one of the three special values: finite
  results are not rounded and never overflow, and there is a single zero (the sign of a
  zero is not tracked, so \<open>x / 0\<close> with \<open>x > 0\<close> is the positive infinity). This is the
  code in real arithmetic, and the statements that are made in real arithmetic are about
  it. On the special values every operation follows the ECMAScript rules, so that a
  division by zero or the square root of a negative number shows up as \<open>PInf\<close>, \<open>NInf\<close>
  or \<open>NaN\<close> in a result, as it does in the program. The sections on binary64 values
  further down read the same code with every operation rounded as the program rounds
  it; what the program returns on given doubles is evaluated there.
\<close>

datatype jsnum = Fin real | PInf | NInf | NaN

fun jpos :: "jsnum \<Rightarrow> bool" where
  "jpos (Fin a) = (0 \<le> a)"
| "jpos PInf = True"
| "jpos NInf = False"
| "jpos NaN = False"

fun jadd :: "jsnum \<Rightarrow> jsnum \<Rightarrow> jsnum" where
  "jadd NaN _ = NaN"
| "jadd _ NaN = NaN"
| "jadd (Fin a) (Fin b) = Fin (a + b)"
| "jadd PInf NInf = NaN"
| "jadd NInf PInf = NaN"
| "jadd PInf _ = PInf"
| "jadd _ PInf = PInf"
| "jadd NInf _ = NInf"
| "jadd _ NInf = NInf"

fun jneg :: "jsnum \<Rightarrow> jsnum" where
  "jneg (Fin a) = Fin (- a)"
| "jneg PInf = NInf"
| "jneg NInf = PInf"
| "jneg NaN = NaN"

fun jmul :: "jsnum \<Rightarrow> jsnum \<Rightarrow> jsnum" where
  "jmul NaN _ = NaN"
| "jmul _ NaN = NaN"
| "jmul (Fin a) (Fin b) = Fin (a * b)"
| "jmul (Fin a) i = (if a = 0 then NaN else if jpos (Fin a) = jpos i then PInf else NInf)"
| "jmul i (Fin b) = (if b = 0 then NaN else if jpos i = jpos (Fin b) then PInf else NInf)"
| "jmul i j = (if jpos i = jpos j then PInf else NInf)"

fun jdiv :: "jsnum \<Rightarrow> jsnum \<Rightarrow> jsnum" where
  "jdiv NaN _ = NaN"
| "jdiv _ NaN = NaN"
| "jdiv (Fin a) (Fin b) =
     (if b \<noteq> 0 then Fin (a / b) else if a = 0 then NaN else if 0 < a then PInf else NInf)"
| "jdiv (Fin a) _ = Fin 0"
| "jdiv i (Fin b) = (if jpos i = jpos (Fin b) then PInf else NInf)"
| "jdiv _ _ = NaN"

fun jless :: "jsnum \<Rightarrow> jsnum \<Rightarrow> bool" where
  "jless NaN _ = False"
| "jless _ NaN = False"
| "jless (Fin a) (Fin b) = (a < b)"
| "jless _ NInf = False"
| "jless PInf _ = False"
| "jless _ _ = True"

fun jless_eq :: "jsnum \<Rightarrow> jsnum \<Rightarrow> bool" where
  "jless_eq NaN _ = False"
| "jless_eq _ NaN = False"
| "jless_eq (Fin a) (Fin b) = (a \<le> b)"
| "jless_eq NInf _ = True"
| "jless_eq _ PInf = True"
| "jless_eq _ _ = False"

instantiation jsnum :: "{plus, minus, uminus, times, inverse, ord}"
begin

definition plus_jsnum_def: "a + b = jadd a b"
definition uminus_jsnum_def: "- a = jneg a"
definition minus_jsnum_def: "a - b = jadd a (jneg b)"
definition times_jsnum_def: "a * b = jmul a b"
definition divide_jsnum_def: "a div b = jdiv a b"
definition inverse_jsnum_def: "inverse a = jdiv (Fin 1) a"
definition less_jsnum_def: "a < b = jless a b"
definition less_eq_jsnum_def: "a \<le> b = jless_eq a b"

instance ..

end

text \<open>The functions of \<^verbatim>\<open>Math\<close> that the geometry uses.\<close>

definition Math_PI :: jsnum where
  "Math_PI = Fin pi"

fun Math_sqrt :: "jsnum \<Rightarrow> jsnum" where
  "Math_sqrt (Fin a) = (if a < 0 then NaN else Fin (sqrt a))"
| "Math_sqrt PInf = PInf"
| "Math_sqrt NInf = NaN"
| "Math_sqrt NaN = NaN"

fun Math_abs :: "jsnum \<Rightarrow> jsnum" where
  "Math_abs (Fin a) = Fin \<bar>a\<bar>"
| "Math_abs PInf = PInf"
| "Math_abs NInf = PInf"
| "Math_abs NaN = NaN"

fun Math_cos :: "jsnum \<Rightarrow> jsnum" where
  "Math_cos (Fin a) = Fin (cos a)"
| "Math_cos _ = NaN"

fun Math_sin :: "jsnum \<Rightarrow> jsnum" where
  "Math_sin (Fin a) = Fin (sin a)"
| "Math_sin _ = NaN"

text \<open>
  The tangent of an exact real has poles, which a double never hits exactly; at a pole
  the model gives the quotient \<open>sin a / cos a\<close> of JavaScript numbers, an infinity.
\<close>

fun Math_tan :: "jsnum \<Rightarrow> jsnum" where
  "Math_tan (Fin a) = Fin (sin a) / Fin (cos a)"
| "Math_tan _ = NaN"

text \<open>The angle of the point \<open>(x, y)\<close> in \<open>(-\<pi>, \<pi>]\<close>, for real arguments.\<close>

definition atan2 :: "real \<Rightarrow> real \<Rightarrow> real" where
  "atan2 y x =
     (if 0 < x then arctan (y / x)
      else if x < 0 then (if 0 \<le> y then arctan (y / x) + pi else arctan (y / x) - pi)
      else if 0 < y then pi / 2
      else if y < 0 then - (pi / 2)
      else 0)"

fun Math_atan2 :: "jsnum \<Rightarrow> jsnum \<Rightarrow> jsnum" where
  "Math_atan2 NaN _ = NaN"
| "Math_atan2 _ NaN = NaN"
| "Math_atan2 (Fin y) (Fin x) = Fin (atan2 y x)"
| "Math_atan2 (Fin y) PInf = Fin 0"
| "Math_atan2 (Fin y) NInf = (if 0 \<le> y then Fin pi else Fin (- pi))"
| "Math_atan2 PInf (Fin x) = Fin (pi / 2)"
| "Math_atan2 NInf (Fin x) = Fin (- (pi / 2))"
| "Math_atan2 PInf PInf = Fin (pi / 4)"
| "Math_atan2 PInf NInf = Fin (3 * pi / 4)"
| "Math_atan2 NInf PInf = Fin (- (pi / 4))"
| "Math_atan2 NInf NInf = Fin (- (3 * pi / 4))"

text \<open>
  \<^verbatim>\<open>Math.pow\<close>, by the cases of ECMAScript's exponentiation. A negative base has a
  real power only for an integral exponent, whose parity gives the sign.
\<close>

definition isInt :: "real \<Rightarrow> bool" where
  "isInt e = (of_int \<lfloor>e\<rfloor> = e)"

definition isOddInt :: "real \<Rightarrow> bool" where
  "isOddInt e = (isInt e \<and> odd \<lfloor>e\<rfloor>)"

fun Math_pow :: "jsnum \<Rightarrow> jsnum \<Rightarrow> jsnum" where
  "Math_pow base NaN = NaN"
| "Math_pow base (Fin e) =
     (if e = 0 then Fin 1
      else case base of
        NaN \<Rightarrow> NaN
      | Fin u \<Rightarrow> (if 0 < u then Fin (u powr e)
                  else if u = 0 then (if 0 < e then Fin 0 else PInf)
                  else if isOddInt e then Fin (- (\<bar>u\<bar> powr e))
                  else if isInt e then Fin (\<bar>u\<bar> powr e)
                  else NaN)
      | PInf \<Rightarrow> (if 0 < e then PInf else Fin 0)
      | NInf \<Rightarrow> (if 0 < e then (if isOddInt e then NInf else PInf) else Fin 0))"
| "Math_pow base PInf =
     (case Math_abs base of
        Fin u \<Rightarrow> (if 1 < u then PInf else if u = 1 then NaN else Fin 0)
      | PInf \<Rightarrow> PInf
      | _ \<Rightarrow> NaN)"
| "Math_pow base NInf =
     (case Math_abs base of
        Fin u \<Rightarrow> (if 1 < u then Fin 0 else if u = 1 then NaN else PInf)
      | PInf \<Rightarrow> Fin 0
      | _ \<Rightarrow> NaN)"

section \<open>The class Complex\<close>

text \<open>
  A \<^verbatim>\<open>Complex\<close> object has the two number fields \<^verbatim>\<open>x\<close> and \<^verbatim>\<open>y\<close>, here the
  selectors \<open>xC\<close> and \<open>yC\<close>. The methods are functions of the receiver and the argument;
  every one of them returns a new object. The methods \<^verbatim>\<open>add\<close>, \<^verbatim>\<open>sub\<close>, \<^verbatim>\<open>mul\<close> and
  \<^verbatim>\<open>div\<close> are \<open>cadd\<close>, \<open>csub\<close>, \<open>cmul\<close> and \<open>cdiv\<close>; the other methods keep their
  names. The methods \<^verbatim>\<open>exp\<close>, \<^verbatim>\<open>tanh\<close> and \<^verbatim>\<open>power\<close> serve the projection maps
  only and are not modelled.
\<close>

datatype cpx = Cpx (xC: jsnum) (yC: jsnum)

definition cadd :: "cpx \<Rightarrow> cpx \<Rightarrow> cpx" where
  "cadd this z = Cpx (xC this + xC z) (yC this + yC z)"

definition csub :: "cpx \<Rightarrow> cpx \<Rightarrow> cpx" where
  "csub this z = Cpx (xC this - xC z) (yC this - yC z)"

definition cmul :: "cpx \<Rightarrow> cpx \<Rightarrow> cpx" where
  "cmul this z = Cpx (xC this * xC z - yC this * yC z) (xC this * yC z + yC this * xC z)"

definition mulRe :: "cpx \<Rightarrow> jsnum \<Rightarrow> cpx" where
  "mulRe this k = Cpx (xC this * k) (yC this * k)"

definition divRe :: "cpx \<Rightarrow> jsnum \<Rightarrow> cpx" where
  "divRe this k = mulRe this (Fin 1 / k)"

definition conj :: "cpx \<Rightarrow> cpx" where
  "conj this = Cpx (xC this) (- yC this)"

definition normSq :: "cpx \<Rightarrow> jsnum" where
  "normSq this = xC this * xC this + yC this * yC this"

definition getNorm :: "cpx \<Rightarrow> jsnum" where
  "getNorm this = Math_sqrt (normSq this)"

definition getNormalized :: "cpx \<Rightarrow> cpx" where
  "getNormalized this = divRe this (getNorm this)"

definition reciprocal :: "cpx \<Rightarrow> cpx" where
  "reciprocal this = divRe (conj this) (normSq this)"

definition cdiv :: "cpx \<Rightarrow> cpx \<Rightarrow> cpx" where
  "cdiv this z = cmul this (reciprocal z)"

definition versor :: "jsnum \<Rightarrow> cpx" where
  "versor t = Cpx (Math_cos t) (Math_sin t)"

text \<open>
  \<^verbatim>\<open>root(n)\<close> pushes one root for each \<open>k = 0, ..., n - 1\<close>; the loop is a map over
  that range.
\<close>

definition root :: "cpx \<Rightarrow> nat \<Rightarrow> cpx list" where
  "root this n =
     (let nthRootr = Math_pow (getNorm this) (Fin 1 / Fin (real n));
          phi = Math_atan2 (yC this) (xC this)
      in map (\<lambda>k. mulRe (versor ((phi + Fin 2 * Fin (real k) * Math_PI) / Fin (real n))) nthRootr)
             [0 ..< n])"

section \<open>M\"obius transforms\<close>

text \<open>
  The object \<^verbatim>\<open>{a, b, c, d}\<close> that \<^verbatim>\<open>MobiusMap3PointsTo_m101\<close> returns. The fields
  carry the prefix \<open>m_\<close>, since a record field is a constant and the bare letters are
  wanted as variables.
\<close>

record MobiusMap =
  m_a :: cpx
  m_b :: cpx
  m_c :: cpx
  m_d :: cpx

text \<open>
  \<^verbatim>\<open>denoms[0]\<close> reads the first of the two roots that \<^verbatim>\<open>root(2)\<close> returns; the list
  has two elements whatever the argument is.
\<close>

definition MobiusMap3PointsTo_m101 :: "cpx \<Rightarrow> cpx \<Rightarrow> cpx \<Rightarrow> MobiusMap" where
  "MobiusMap3PointsTo_m101 P Q R =
     (let denoms = root (mulRe (cmul (cmul (csub P R) (csub Q P)) (csub Q R)) (Fin 2)) 2;
          denom = denoms ! 0
      in \<lparr> m_a = cdiv (csub P R) denom,
           m_b = cdiv (cmul (mulRe Q (Fin (- 1))) (csub P R)) denom,
           m_c = cdiv (cadd (csub Q P) (csub Q R)) denom,
           m_d = cdiv (csub (cmul (mulRe P (Fin (- 1))) (csub Q R)) (cmul R (csub Q P))) denom \<rparr>)"

definition applyMobiusTrans :: "MobiusMap \<Rightarrow> cpx \<Rightarrow> bool \<Rightarrow> cpx" where
  "applyMobiusTrans MMap z inverted =
     (if inverted
      then cdiv (csub (cmul (m_d MMap) z) (m_b MMap)) (csub (m_a MMap) (cmul (m_c MMap) z))
      else cdiv (cadd (cmul (m_a MMap) z) (m_b MMap)) (cadd (m_d MMap) (cmul (m_c MMap) z)))"

section \<open>Elementary constructions\<close>

record Circle =
  center :: cpx
  radius :: jsnum

text \<open>
  \<^verbatim>\<open>circleFrom3Points\<close> has no branch: it divides by the determinant whatever its
  value is and returns the object \<^verbatim>\<open>{center, radius}\<close>.
\<close>

definition circleFrom3Points :: "cpx \<Rightarrow> cpx \<Rightarrow> cpx \<Rightarrow> Circle" where
  "circleFrom3Points p1 p2 p3 =
     (let A = xC p1 - xC p2;
          B = yC p1 - yC p2;
          C = xC p1 - xC p3;
          D = yC p1 - yC p3;
          E = (xC p1 * xC p1 - xC p2 * xC p2 + yC p1 * yC p1 - yC p2 * yC p2) * Fin (1 / 2);
          F = (xC p1 * xC p1 - xC p3 * xC p3 + yC p1 * yC p1 - yC p3 * yC p3) * Fin (1 / 2);
          det = A * D - B * C;
          cen = Cpx ((D * E - B * F) / det) (((- C) * E + A * F) / det);
          rad = getNorm (csub cen p1)
      in \<lparr> center = cen, radius = rad \<rparr>)"

text \<open>The threshold \<^verbatim>\<open>1e-12\<close> of the degeneracy tests.\<close>

abbreviation eps12 :: jsnum where
  "eps12 \<equiv> Fin (1 / 10 ^ 12)"

definition circleCircleIntersections :: "cpx \<Rightarrow> jsnum \<Rightarrow> cpx \<Rightarrow> jsnum \<Rightarrow> cpx list" where
  "circleCircleIntersections c1 r1 c2 r2 =
     (let dVec = csub c2 c1;
          d = getNorm dVec
      in if r1 + r2 < d \<or> d < Math_abs (r1 - r2) \<or> d < eps12 then []
         else
           let x = (r1 * r1 - r2 * r2 + d * d) / (Fin 2 * d);
               h2 = r1 * r1 - x * x;
               h2 = (if h2 < Fin 0 then Fin 0 else h2);
               p = cadd c1 (mulRe dVec (x / d));
               perp = getNormalized (Cpx (- yC dVec) (xC dVec));
               h = Math_sqrt h2;
               i1 = cadd p (mulRe perp h);
               i2 = csub p (mulRe perp h)
           in if h < eps12 then [i1] else [i1, i2])"

definition isInsideTriangle :: "cpx \<Rightarrow> cpx \<Rightarrow> cpx \<Rightarrow> cpx \<Rightarrow> bool" where
  "isInsideTriangle p a b c =
     (let denominator = (yC b - yC c) * (xC a - xC c) + (xC c - xC b) * (yC a - yC c)
      in if Math_abs denominator < eps12 then False
         else
           let alpha = ((yC b - yC c) * (xC p - xC c) + (xC c - xC b) * (yC p - yC c))
                         / denominator;
               beta = ((yC c - yC a) * (xC p - xC c) + (xC a - xC c) * (yC p - yC c))
                         / denominator;
               gamma = Fin 1 - alpha - beta
           in Fin 0 \<le> alpha \<and> Fin 0 \<le> beta \<and> Fin 0 \<le> gamma)"

text \<open>The reflection of a point in an edge: forward, negate the imaginary part, back.\<close>

definition enlargedCircleAtPoint :: "cpx \<Rightarrow> MobiusMap \<Rightarrow> MobiusMap \<Rightarrow> Circle" where
  "enlargedCircleAtPoint P MMapA MMapB =
     (let P_trans_A = applyMobiusTrans MMapA P False;
          P_reflect_trans_A = Cpx (xC P_trans_A) (- yC P_trans_A);
          P_reflect_A = applyMobiusTrans MMapA P_reflect_trans_A True;
          P_trans_B = applyMobiusTrans MMapB P False;
          P_reflect_trans_B = Cpx (xC P_trans_B) (- yC P_trans_B);
          P_reflect_B = applyMobiusTrans MMapB P_reflect_trans_B True
      in circleFrom3Points P P_reflect_A P_reflect_B)"

definition ornament :: "cpx \<Rightarrow> cpx \<Rightarrow> jsnum \<Rightarrow> jsnum \<Rightarrow> cpx" where
  "ornament D refDir len_rat angle_rat =
     (let thetaD = Math_atan2 (yC D) (xC D);
          thetaV2 = Math_atan2 (yC refDir) (xC refDir);
          thetaE = thetaD + angle_rat * (thetaV2 - thetaD);
          rE = len_rat * getNorm D
      in mulRe (versor thetaE) rE)"

text \<open>
  \<^verbatim>\<open>intersectCircleWithOriginLine\<close> returns a point or \<^verbatim>\<open>null\<close>; \<open>None\<close> is
  \<^verbatim>\<open>null\<close>. Of the two candidates the second is taken unless the first has the
  strictly smaller norm.
\<close>

definition intersectCircleWithOriginLine :: "cpx \<Rightarrow> jsnum \<Rightarrow> cpx \<Rightarrow> cpx option" where
  "intersectCircleWithOriginLine invCen invRad refDir =
     (let nx = yC refDir;
          ny = - xC refDir;
          cenX = xC invCen;
          cenY = yC invCen
      in if eps12 < Math_abs ny then
           let slope = (- nx) / ny;
               A = Fin 1 + slope * slope;
               B = Fin (- 2) * (cenX + slope * cenY);
               C = cenX * cenX + cenY * cenY - invRad * invRad;
               disc = B * B - Fin 4 * A * C
           in if disc < Fin 0 then None
              else
                let x1 = ((- B) + Math_sqrt disc) / (Fin 2 * A);
                    y1 = slope * x1;
                    x2 = ((- B) - Math_sqrt disc) / (Fin 2 * A);
                    y2 = slope * x2;
                    cand1 = Cpx x1 y1;
                    cand2 = Cpx x2 y2
                in Some (if getNorm cand1 < getNorm cand2 then cand1 else cand2)
         else
           let radTerm = invRad * invRad - cenX * cenX;
               radTerm = (if radTerm < Fin 0 then Fin 0 else radTerm);
               y = cenY + Math_sqrt radTerm;
               cand1 = Cpx (Fin 0) y;
               cand2 = Cpx (Fin 0) (cenY - Math_sqrt radTerm)
           in Some (if getNorm cand1 < getNorm cand2 then cand1 else cand2))"

section \<open>The tiling-parameter generator\<close>

text \<open>
  The only exception that the code of the generator can raise is the \<^verbatim>\<open>TypeError\<close> of
  reading a property of \<^verbatim>\<open>undefined\<close> or \<^verbatim>\<open>null\<close>: the element \<^verbatim>\<open>[0]\<close> or
  \<^verbatim>\<open>[1]\<close> of a list that is too short, or a \<^verbatim>\<open>null\<close> returned by
  \<^verbatim>\<open>intersectCircleWithOriginLine\<close>, passed on to a method of \<^verbatim>\<open>Complex\<close>. There is no
  \<^verbatim>\<open>throw\<close> statement in \<^verbatim>\<open>math.js\<close>.
\<close>

datatype js_error = TypeError

text \<open>
  \<^verbatim>\<open>intersections.sort((a, b) => b.y - a.y)\<close>: a stable sort by descending \<^verbatim>\<open>y\<close>. An
  element moves behind another one only when the comparison function is positive; a
  \<open>NaN\<close> difference counts as zero.
\<close>

fun insert_desc_y :: "cpx \<Rightarrow> cpx list \<Rightarrow> cpx list" where
  "insert_desc_y e [] = [e]"
| "insert_desc_y e (f # fs) = (if Fin 0 < yC f - yC e then f # insert_desc_y e fs else e # f # fs)"

definition sort_desc_y :: "cpx list \<Rightarrow> cpx list" where
  "sort_desc_y xs = foldr insert_desc_y xs []"

text \<open>
  The object that \<^verbatim>\<open>generateTilingParams\<close> returns. Its fields carry the prefix
  \<open>tp_\<close>, which keeps the names of the source free for the local variables.
\<close>

record TilingParams =
  tp_invCen :: cpx
  tp_invRad :: jsnum
  tp_refNrm :: cpx
  tp_V0 :: cpx
  tp_V1 :: cpx
  tp_V2 :: cpx
  tp_D :: cpx
  tp_E :: cpx
  tp_D1 :: cpx
  tp_E1 :: cpx
  tp_D1p :: cpx
  tp_E1p :: cpx
  tp_D2 :: cpx
  tp_E2 :: cpx
  tp_triV0EnlargedCircleCenter :: cpx
  tp_triV0EnlargedCircleRadius :: jsnum
  tp_triV1EnlargedCircleCenter :: cpx
  tp_triV1EnlargedCircleRadius :: jsnum
  tp_triV2EnlargedCircleCenter :: cpx
  tp_triV2EnlargedCircleRadius :: jsnum
  tp_V0EnlargedCircleCenter :: cpx
  tp_V0EnlargedCircleRadius :: jsnum
  tp_V2EnlargedCircleCenter :: cpx
  tp_V2EnlargedCircleRadius :: jsnum
  tp_newThickEdge12CircleCenter :: cpx
  tp_newThickEdge12CircleRadius :: jsnum
  tp_newThickEdge01CircleCenter :: cpx
  tp_newThickEdge01CircleRadius :: jsnum
  tp_newThickEdge20CircleCenter :: cpx
  tp_newThickEdge20CircleRadius :: jsnum
  tp_C2RotSnakesCenter :: cpx
  tp_C2RotSnakesRadius :: jsnum

text \<open>
  The body of \<^verbatim>\<open>generateTilingParams\<close> is split after the statement that computes
  \<^verbatim>\<open>V2\<close>. Its first part (lines 130 to 156) depends on \<open>p\<close> and \<open>q\<close> only and computes
  the reference direction, the inversion circle and the three vertices of the fundamental
  triangle, where \<^verbatim>\<open>V2\<close> may be \<^verbatim>\<open>null\<close>.
\<close>

record Vertices =
  vt_refDir :: cpx
  vt_invCen :: cpx
  vt_invRad :: jsnum
  vt_V0 :: cpx
  vt_V1 :: cpx
  vt_V2 :: "cpx option"

definition generateTilingParams_vertices :: "jsnum \<Rightarrow> jsnum \<Rightarrow> Vertices" where
  "generateTilingParams_vertices p q =
     (let alpha = Math_PI / p;
          refDir = versor alpha;
          beta = Math_PI / q;
          cotq = Fin 1 / Math_tan beta;
          tanp = yC refDir / xC refDir;
          rSide = Math_sqrt ((cotq - tanp) / (cotq + tanp));
          cenX = Fin (1 / 2) * (rSide * rSide + Fin 1) / (rSide * xC refDir);
          invRadSq = cenX * cenX + (Fin (- 2) * xC refDir * cenX + rSide) * rSide;
          invCen = Cpx cenX (Fin 0);
          invRad = Math_sqrt invRadSq;
          V0 = Cpx (Fin 0) (Fin 0);
          dir = getNormalized (csub invCen V0);
          d_edge = getNorm (csub invCen V0) - invRad;
          V1 = mulRe dir d_edge;
          V2 = intersectCircleWithOriginLine invCen invRad refDir
      in \<lparr> vt_refDir = refDir, vt_invCen = invCen, vt_invRad = invRad,
           vt_V0 = V0, vt_V1 = V1, vt_V2 = V2 \<rparr>)"

text \<open>
  The rest of the body. A read of \<^verbatim>\<open>undefined\<close> or \<^verbatim>\<open>null\<close> is a case distinction
  that ends in \<open>Inl TypeError\<close>, at the statement where the program first reads a
  property of the value: \<^verbatim>\<open>P.sub(R)\<close> in \<^verbatim>\<open>MobiusMap3PointsTo_m101\<close> for the sorted
  intersections, \<^verbatim>\<open>V2.divRe\<close>, \<^verbatim>\<open>z.x\<close> in \<^verbatim>\<open>applyMobiusTrans\<close> for the points
  \<^verbatim>\<open>filter(...)[0]\<close> and \<^verbatim>\<open>V2a\<close>, and \<^verbatim>\<open>V0a.x\<close>.
\<close>

definition generateTilingParams :: "jsnum \<Rightarrow> jsnum \<Rightarrow> jsnum \<Rightarrow> js_error + TilingParams" where
  "generateTilingParams p q edgeThickness =
     (let vt = generateTilingParams_vertices p q;
          refDir = vt_refDir vt;
          invCen = vt_invCen vt;
          invRad = vt_invRad vt;
          V0 = vt_V0 vt;
          V1 = vt_V1 vt;
          M_thickPoint = Cpx (Fin 0) edgeThickness;
          P1 = Cpx (Fin (- 1)) (Fin 0);
          P2 = Cpx (Fin 1) (Fin 0);
          MMap01 = MobiusMap3PointsTo_m101 P1 V0 P2;
          newM01 = applyMobiusTrans MMap01 M_thickPoint True;
          newThickEdge01Circle = circleFrom3Points P1 P2 newM01;
          intersections = sort_desc_y (circleCircleIntersections invCen invRad V0 (Fin 1))
      in case intersections of
           P1 # P2 # _ \<Rightarrow>
             (let MMap12 = MobiusMap3PointsTo_m101 P2 V1 P1;
                  newM12 = applyMobiusTrans MMap12 M_thickPoint True;
                  newThickEdge12Circle = circleFrom3Points P1 P2 newM12;
                  intersections0 = P1;
                  intersections1 = P2
              in case vt_V2 vt of
                   None \<Rightarrow> Inl TypeError
                 | Some V2 \<Rightarrow>
                     (let P1 = divRe V2 (getNorm V2);
                          P2 = divRe V2 (- getNorm V2);
                          MMap20 = MobiusMap3PointsTo_m101 P1 V0 P2;
                          newM20 = applyMobiusTrans MMap20 M_thickPoint True;
                          newThickEdge20Circle = circleFrom3Points P1 P2 newM20
                      in case filter (\<lambda>p. isInsideTriangle p V0 V1 V2)
                             (circleCircleIntersections
                                (center newThickEdge20Circle) (radius newThickEdge20Circle)
                                (center newThickEdge01Circle) (radius newThickEdge01Circle)) of
                           [] \<Rightarrow> Inl TypeError
                         | thickEdgeIntersection_20_01 # _ \<Rightarrow>
        (let triV0EnlargedCircle = enlargedCircleAtPoint thickEdgeIntersection_20_01 MMap20 MMap01
         in case filter (\<lambda>p. isInsideTriangle p V0 V1 V2)
                  (circleCircleIntersections
                     (center newThickEdge01Circle) (radius newThickEdge01Circle)
                     (center newThickEdge12Circle) (radius newThickEdge12Circle)) of
              [] \<Rightarrow> Inl TypeError
            | thickEdgeIntersection_01_12 # _ \<Rightarrow>
        (let triV1EnlargedCircle = enlargedCircleAtPoint thickEdgeIntersection_01_12 MMap01 MMap12
         in case filter (\<lambda>p. isInsideTriangle p V0 V1 V2)
                  (circleCircleIntersections
                     (center newThickEdge12Circle) (radius newThickEdge12Circle)
                     (center newThickEdge20Circle) (radius newThickEdge20Circle)) of
              [] \<Rightarrow> Inl TypeError
            | thickEdgeIntersection_12_20 # _ \<Rightarrow>
        (let triV2EnlargedCircle = enlargedCircleAtPoint thickEdgeIntersection_12_20 MMap12 MMap20
         in case intersectCircleWithOriginLine
                   (center newThickEdge12Circle) (radius newThickEdge12Circle) refDir of
              None \<Rightarrow> Inl TypeError
            | Some V2a \<Rightarrow>
        (let V2a_trans_12 = applyMobiusTrans MMap12 V2a False;
             V2b_trans_12 = Cpx (xC V2a_trans_12) (- yC V2a_trans_12);
             V2b = applyMobiusTrans MMap12 V2b_trans_12 True;
             V2b_trans_20 = applyMobiusTrans MMap20 V2b False;
             V2c_trans_20 = Cpx (xC V2b_trans_20) (- yC V2b_trans_20);
             V2c = applyMobiusTrans MMap20 V2c_trans_20 True;
             V2EnlargedCircle = circleFrom3Points V2a V2b V2c
         in case intersectCircleWithOriginLine
                   (center newThickEdge01Circle) (radius newThickEdge01Circle) refDir of
              None \<Rightarrow> Inl TypeError
            | Some V0a \<Rightarrow>
        (let V0b = Cpx (xC V0a) (- yC V0a);
             V0b_trans_20 = applyMobiusTrans MMap20 V0b False;
             V0c_trans_20 = Cpx (xC V0b_trans_20) (- yC V0b_trans_20);
             V0c = applyMobiusTrans MMap20 V0c_trans_20 True;
             V0EnlargedCircle = circleFrom3Points V0a V0b V0c;
             len_rat = Fin (6 / 10);
             angle_rat = Fin (6 / 10);
             D = Cpx (edgeThickness * Fin 4) (Fin 0);
             E = ornament D V2 len_rat angle_rat;
             MMap2 = MobiusMap3PointsTo_m101 intersections1 V2 intersections0;
             tmp_E2 = ornament (Cpx (- xC D) (yC D)) (applyMobiusTrans MMap2 V0 False)
                        len_rat angle_rat;
             D2 = applyMobiusTrans MMap2 (Cpx (- xC D) (yC D)) True;
             E2 = applyMobiusTrans MMap2 tmp_E2 True;
             D1 = applyMobiusTrans MMap12 D True;
             E1 = applyMobiusTrans MMap12 E True;
             MMap1 = MobiusMap3PointsTo_m101 (Cpx (Fin (- 1)) (Fin 0)) V1 (Cpx (Fin 1) (Fin 0));
             D1p = applyMobiusTrans MMap1 (Cpx (- xC D) (yC D)) True;
             E1p = applyMobiusTrans MMap1 (Cpx (- xC E) (yC E)) True;
             V1_trans_20 = applyMobiusTrans MMap20 V1 False;
             V1_trans_20_ref_20 = Cpx (xC V1_trans_20) (- yC V1_trans_20);
             V1_ref_20 = applyMobiusTrans MMap20 V1_trans_20_ref_20 True;
             V1_ref_20_trans_12 = applyMobiusTrans MMap12 V1_ref_20 False;
             V1_ref_20_trans_12_ref_12 = Cpx (xC V1_ref_20_trans_12) (- yC V1_ref_20_trans_12);
             V1_ref_20_ref_12 = applyMobiusTrans MMap12 V1_ref_20_trans_12_ref_12 True;
             C2RotSnakes = circleFrom3Points V1 V1_ref_20 V1_ref_20_ref_12
         in Inr \<lparr> tp_invCen = invCen,
                  tp_invRad = invRad,
                  tp_refNrm = Cpx (yC refDir) (- xC refDir),
                  tp_V0 = V0,
                  tp_V1 = V1,
                  tp_V2 = V2,
                  tp_D = D,
                  tp_E = E,
                  tp_D1 = D1,
                  tp_E1 = E1,
                  tp_D1p = D1p,
                  tp_E1p = E1p,
                  tp_D2 = D2,
                  tp_E2 = E2,
                  tp_triV0EnlargedCircleCenter = center triV0EnlargedCircle,
                  tp_triV0EnlargedCircleRadius = radius triV0EnlargedCircle,
                  tp_triV1EnlargedCircleCenter = center triV1EnlargedCircle,
                  tp_triV1EnlargedCircleRadius = radius triV1EnlargedCircle,
                  tp_triV2EnlargedCircleCenter = center triV2EnlargedCircle,
                  tp_triV2EnlargedCircleRadius = radius triV2EnlargedCircle,
                  tp_V0EnlargedCircleCenter = center V0EnlargedCircle,
                  tp_V0EnlargedCircleRadius = radius V0EnlargedCircle,
                  tp_V2EnlargedCircleCenter = center V2EnlargedCircle,
                  tp_V2EnlargedCircleRadius = radius V2EnlargedCircle,
                  tp_newThickEdge12CircleCenter = center newThickEdge12Circle,
                  tp_newThickEdge12CircleRadius = radius newThickEdge12Circle,
                  tp_newThickEdge01CircleCenter = center newThickEdge01Circle,
                  tp_newThickEdge01CircleRadius = radius newThickEdge01Circle,
                  tp_newThickEdge20CircleCenter = center newThickEdge20Circle,
                  tp_newThickEdge20CircleRadius = radius newThickEdge20Circle,
                  tp_C2RotSnakesCenter = center C2RotSnakes,
                  tp_C2RotSnakesRadius = radius C2RotSnakes \<rparr>)))))))
         | _ \<Rightarrow> Inl TypeError)"

text \<open>
  The component \<^verbatim>\<open>TilingSelector\<close> of the settings menu holds the flag
  \<^verbatim>\<open>hasError\<close> and, through the context, the parameters of the application: the fields
  of the descriptor (absent before the first computation), the Schl\"afli symbol, the edge
  thickness and the settings that \<^verbatim>\<open>setValues\<close> does not touch. \<^verbatim>\<open>setValues\<close> returns
  the new state and the exception that escaped it, if any.
\<close>

record 'o Params =
  tiling :: "TilingParams option"
  pValue :: jsnum
  qValue :: jsnum
  eThickness :: jsnum
  others :: 'o

record 'o TilingSelector =
  hasError :: bool
  params :: "'o Params"

definition setValues ::
  "'o TilingSelector \<Rightarrow> jsnum \<Rightarrow> jsnum \<Rightarrow> jsnum \<Rightarrow> 'o TilingSelector \<times> js_error option" where
  "setValues st p q edgeThickness =
     (if (p - Fin 2) * (q - Fin 2) \<le> Fin 4 then (st \<lparr> hasError := True \<rparr>, None)
      else
        let st = st \<lparr> hasError := False \<rparr>
        in case generateTilingParams p q edgeThickness of
             Inl err \<Rightarrow> (st, Some err)
           | Inr t \<Rightarrow>
               (st \<lparr> params := (params st) \<lparr> tiling := Some t, pValue := p, qValue := q,
                                               eThickness := edgeThickness \<rparr> \<rparr>, None))"

section \<open>The reduction loop of the fragment shader\<close>

text \<open>
  \<^verbatim>\<open>tilingSample\<close> in \<^verbatim>\<open>src/public/shader.glsl\<close> reduces a point of the disk into the
  fundamental domain by a bounded loop. GLSL leaves the result of a division by zero
  and of operations on \<open>NaN\<close> undefined, so the shader is modelled on the real numbers; a
  \<^verbatim>\<open>vec2\<close> is a pair of reals with the componentwise operations, \<^verbatim>\<open>dot\<close> and the
  shader's own \<^verbatim>\<open>normSq\<close>.
\<close>

datatype vec2 = Vec2 (vec_x: real) (vec_y: real)

definition vadd :: "vec2 \<Rightarrow> vec2 \<Rightarrow> vec2" where
  "vadd u v = Vec2 (vec_x u + vec_x v) (vec_y u + vec_y v)"

definition vsub :: "vec2 \<Rightarrow> vec2 \<Rightarrow> vec2" where
  "vsub u v = Vec2 (vec_x u - vec_x v) (vec_y u - vec_y v)"

definition vscale :: "real \<Rightarrow> vec2 \<Rightarrow> vec2" where
  "vscale k v = Vec2 (k * vec_x v) (k * vec_y v)"

definition vdivs :: "vec2 \<Rightarrow> real \<Rightarrow> vec2" where
  "vdivs v k = Vec2 (vec_x v / k) (vec_y v / k)"

definition dot :: "vec2 \<Rightarrow> vec2 \<Rightarrow> real" where
  "dot u v = vec_x u * vec_x v + vec_y u * vec_y v"

definition normSq_v :: "vec2 \<Rightarrow> real" where
  "normSq_v v = dot v v"

text \<open>
  The variables that the loop reads and writes: the point \<^verbatim>\<open>z\<close>, the flag \<^verbatim>\<open>fund\<close>
  and the counters.
\<close>

record loop_state =
  st_z :: vec2
  st_fund :: bool
  st_n :: real
  st_a :: real
  st_col0 :: real
  st_col1 :: real
  st_col2 :: real
  st_pol_col :: real

text \<open>
  One pass of the loop body. The macro \<^verbatim>\<open>invRadSq\<close> stands for the text
  \<^verbatim>\<open>invRad * invRad\<close>.
\<close>

definition tilingSample_pass :: "vec2 \<Rightarrow> real \<Rightarrow> vec2 \<Rightarrow> loop_state \<Rightarrow> loop_state" where
  "tilingSample_pass invCen invRad refNrm s0 =
     (let s = s0 \<lparr> st_fund := True \<rparr>;
          diff = vsub (st_z s) invCen;
          distSq = normSq_v diff;
          s = (if distSq < invRad * invRad
               then s \<lparr> st_fund := False,
                        st_z := vadd invCen (vdivs (vscale (invRad * invRad) diff) distSq),
                        st_n := st_n s + 1,
                        st_a := st_a s + 1,
                        st_pol_col := st_pol_col s + 1,
                        st_col0 := st_col0 s + 1 \<rparr>
               else s);
          dotProd = dot (st_z s) refNrm;
          s = (if dotProd < 0
               then s \<lparr> st_fund := False,
                        st_z := vsub (st_z s) (vscale (2 * dotProd) refNrm),
                        st_n := st_n s + 1,
                        st_col1 := st_col1 s + 1 \<rparr>
               else s);
          s = (if vec_y (st_z s) < 0
               then s \<lparr> st_fund := False,
                        st_z := Vec2 (vec_x (st_z s)) (vec_y (st_z s) * (- 1)),
                        st_n := st_n s + 1,
                        st_pol_col := st_pol_col s + 1,
                        st_col2 := st_col2 s + 1 \<rparr>
               else s)
      in s)"

text \<open>
  The loop \<^verbatim>\<open>for (int i = 0; i < nIterations; i ++)\<close> from the value \<open>i\<close> of its counter
  on. Beside the final state it returns whether it was left by \<^verbatim>\<open>break\<close>.
\<close>

function tilingSample_loop ::
  "vec2 \<Rightarrow> real \<Rightarrow> vec2 \<Rightarrow> int \<Rightarrow> int \<Rightarrow> loop_state \<Rightarrow> loop_state \<times> bool" where
  "tilingSample_loop invCen invRad refNrm nIterations i s =
     (if i < nIterations
      then (let s' = tilingSample_pass invCen invRad refNrm s
            in if st_fund s' then (s', True)
               else tilingSample_loop invCen invRad refNrm nIterations (i + 1) s')
      else (s, False))"
  by pat_completeness auto
termination
  by (relation "measure (\<lambda>(invCen, invRad, refNrm, nIterations, i, s). nat (nIterations - i))") auto

section \<open>JavaScript numbers as binary64 values\<close>

text \<open>
  What the program returns on given numbers depends on how its arithmetic rounds. This
  section models a JavaScript number as the IEEE 754 binary64 value that it is. A finite
  value is \<open>(-1)\<^sup>s m 2\<^sup>e\<close> with a sign \<open>s\<close>, a mantissa \<open>m \<ge> 0\<close> and an exponent \<open>e\<close>;
  it is kept with an odd mantissa, or with \<open>m = 0\<close> and \<open>e = 0\<close> for the zero of either sign,
  so that equal values are equal terms. Beside the finite values there are the two
  infinities and \<open>NaN\<close>.
\<close>

datatype f64 = DFin bool int int | DInf bool | DNaN

text \<open>The number of binary digits of a mantissa, and the form with an odd mantissa.\<close>

fun bitlen :: "int \<Rightarrow> int" where
  "bitlen n = (if n \<le> 0 then 0 else 1 + bitlen (n div 2))"

function strip :: "int \<Rightarrow> int \<Rightarrow> int \<times> int" where
  "strip m e = (if m = 0 then (0, 0) else if even m then strip (m div 2) (e + 1) else (m, e))"
  by pat_completeness auto
termination
  by (relation "measure (\<lambda>(m, e). nat \<bar>m\<bar>)") auto

declare bitlen.simps [simp del] strip.simps [simp del]

text \<open>
  Rounding to the nearest value, ties to the even mantissa. \<open>round64 s n k sticky\<close> is the
  binary64 value of sign \<open>s\<close> nearest to a magnitude \<open>x\<close> with \<open>n 2\<^sup>k \<le> x < (n + 1) 2\<^sup>k\<close>, where
  \<open>sticky\<close> tells that \<open>x\<close> is not \<open>n 2\<^sup>k\<close> itself; an inexact \<open>x\<close> is passed with more than
  \<open>54\<close> digits in \<open>n\<close>. The last kept digit has the exponent \<open>e\<close>: \<open>53\<close> digits are kept, fewer
  below \<open>2\<^sup>-\<^sup>1\<^sup>0\<^sup>2\<^sup>2\<close> where the values have the spacing \<open>2\<^sup>-\<^sup>1\<^sup>0\<^sup>7\<^sup>4\<close>, and a result of \<open>2\<^sup>1\<^sup>0\<^sup>2\<^sup>4\<close> or more
  is an infinity.
\<close>

definition round64 :: "bool \<Rightarrow> int \<Rightarrow> int \<Rightarrow> bool \<Rightarrow> f64" where
  "round64 s n k sticky =
     (if n = 0 then DFin s 0 0
      else
        let e = max (k + bitlen n - 53) (- 1074);
            q = (if e \<le> k then n * 2 ^ nat (k - e)
                 else
                   let d = 2 ^ nat (e - k);
                       q0 = n div d;
                       r = n mod d;
                       h = d div 2
                   in if h < r \<or> (r = h \<and> (sticky \<or> odd q0)) then q0 + 1 else q0)
        in if 971 < e \<or> (e = 971 \<and> 2 ^ 53 \<le> q) then DInf s
           else case strip q e of (m, e') \<Rightarrow> DFin s m e')"

text \<open>
  The value nearest to \<open>(a / b) 2\<^sup>k\<close> for positive \<open>a\<close> and \<open>b\<close>: the quotient is taken with
  at least \<open>64\<close> digits. A decimal literal of the source denotes the value nearest to it,
  so \<^verbatim>\<open>1e-12\<close> is \<open>decimal 1 (10 ^ 12)\<close> and \<^verbatim>\<open>0.5\<close> is \<open>decimal 5 10\<close>; a negative literal
  is the negation of a positive one.
\<close>

definition round_ratio :: "bool \<Rightarrow> int \<Rightarrow> int \<Rightarrow> int \<Rightarrow> f64" where
  "round_ratio s a b k =
     (let j = 64 + bitlen b;
          N = a * 2 ^ nat j
      in round64 s (N div b) (k - j) (N mod b \<noteq> 0))"

definition decimal :: "int \<Rightarrow> int \<Rightarrow> f64" where
  "decimal a b = round_ratio False a b 0"

definition signed_mant :: "bool \<Rightarrow> int \<Rightarrow> int" where
  "signed_mant s m = (if s then - m else m)"

text \<open>
  The operators \<^verbatim>\<open>+\<close>, \<^verbatim>\<open>-\<close>, \<^verbatim>\<open>*\<close>, \<^verbatim>\<open>/\<close>, \<^verbatim>\<open><\<close> and \<^verbatim>\<open><=\<close>. A finite result is the exact
  result, rounded. An exact sum of zero is \<open>+0\<close> unless both summands are \<open>-0\<close>; a product
  or quotient has the product of the signs, also when it is a zero or an infinity; \<open>0 / 0\<close>,
  \<open>\<infinity> - \<infinity>\<close>, \<open>0 * \<infinity>\<close> and \<open>\<infinity> / \<infinity>\<close> are \<open>NaN\<close>. A comparison with \<open>NaN\<close> is false, and
  the two zeros compare equal.
\<close>

fun dneg :: "f64 \<Rightarrow> f64" where
  "dneg (DFin s m e) = DFin (\<not> s) m e"
| "dneg (DInf s) = DInf (\<not> s)"
| "dneg DNaN = DNaN"

fun dadd :: "f64 \<Rightarrow> f64 \<Rightarrow> f64" where
  "dadd DNaN _ = DNaN"
| "dadd _ DNaN = DNaN"
| "dadd (DInf s) (DInf t) = (if s = t then DInf s else DNaN)"
| "dadd (DInf s) _ = DInf s"
| "dadd _ (DInf t) = DInf t"
| "dadd (DFin s m e) (DFin t n f) =
     (let k = min e f;
          S = signed_mant s m * 2 ^ nat (e - k) + signed_mant t n * 2 ^ nat (f - k)
      in if S = 0 then DFin (if m = 0 \<and> n = 0 then s \<and> t else False) 0 0
         else round64 (S < 0) \<bar>S\<bar> k False)"

fun dmul :: "f64 \<Rightarrow> f64 \<Rightarrow> f64" where
  "dmul DNaN _ = DNaN"
| "dmul _ DNaN = DNaN"
| "dmul (DFin s m e) (DFin t n f) = round64 (s \<noteq> t) (m * n) (e + f) False"
| "dmul (DFin s m e) (DInf t) = (if m = 0 then DNaN else DInf (s \<noteq> t))"
| "dmul (DInf s) (DFin t n f) = (if n = 0 then DNaN else DInf (s \<noteq> t))"
| "dmul (DInf s) (DInf t) = DInf (s \<noteq> t)"

fun ddiv :: "f64 \<Rightarrow> f64 \<Rightarrow> f64" where
  "ddiv DNaN _ = DNaN"
| "ddiv _ DNaN = DNaN"
| "ddiv (DFin s m e) (DFin t n f) =
     (if n = 0 then (if m = 0 then DNaN else DInf (s \<noteq> t))
      else round_ratio (s \<noteq> t) m n (e - f))"
| "ddiv (DFin s m e) (DInf t) = DFin (s \<noteq> t) 0 0"
| "ddiv (DInf s) (DFin t n f) = DInf (s \<noteq> t)"
| "ddiv (DInf s) (DInf t) = DNaN"

fun dless :: "f64 \<Rightarrow> f64 \<Rightarrow> bool" where
  "dless DNaN _ = False"
| "dless _ DNaN = False"
| "dless (DFin s m e) (DFin t n f) =
     (let k = min e f
      in signed_mant s m * 2 ^ nat (e - k) < signed_mant t n * 2 ^ nat (f - k))"
| "dless (DFin s m e) (DInf t) = (\<not> t)"
| "dless (DInf s) (DFin t n f) = s"
| "dless (DInf s) (DInf t) = (s \<and> \<not> t)"

fun dless_eq :: "f64 \<Rightarrow> f64 \<Rightarrow> bool" where
  "dless_eq DNaN _ = False"
| "dless_eq _ DNaN = False"
| "dless_eq (DFin s m e) (DFin t n f) =
     (let k = min e f
      in signed_mant s m * 2 ^ nat (e - k) \<le> signed_mant t n * 2 ^ nat (f - k))"
| "dless_eq (DFin s m e) (DInf t) = (\<not> t)"
| "dless_eq (DInf s) (DFin t n f) = s"
| "dless_eq (DInf s) (DInf t) = (s \<or> \<not> t)"

instantiation f64 :: "{plus, minus, uminus, times, inverse, ord}"
begin

definition plus_f64_def: "a + b = dadd a b"
definition uminus_f64_def: "- a = dneg a"
definition minus_f64_def: "a - b = dadd a (dneg b)"
definition times_f64_def: "a * b = dmul a b"
definition divide_f64_def: "a div b = ddiv a b"
definition inverse_f64_def: "inverse a = ddiv (DFin False 1 0) a"
definition less_f64_def: "a < b = dless a b"
definition less_eq_f64_def: "a \<le> b = dless_eq a b"

instance ..

end

text \<open>
  \<^verbatim>\<open>Math.sqrt\<close> is the correctly rounded square root that IEEE 754 defines: the integer
  square root of the mantissa, scaled to an even exponent and to \<open>65\<close> digits, rounded.
  \<^verbatim>\<open>Math.abs\<close> clears the sign.
\<close>

function isqrt :: "int \<Rightarrow> int" where
  "isqrt n = (if n < 2 then n
              else let r = 2 * isqrt (n div 4) in if (r + 1) * (r + 1) \<le> n then r + 1 else r)"
  by pat_completeness auto
termination
  by (relation "measure nat") auto

declare isqrt.simps [simp del]

fun Math_sqrt64 :: "f64 \<Rightarrow> f64" where
  "Math_sqrt64 DNaN = DNaN"
| "Math_sqrt64 (DInf s) = (if s then DNaN else DInf False)"
| "Math_sqrt64 (DFin s m e) =
     (if m = 0 then DFin s 0 0
      else if s then DNaN
      else
        let t = 128 + e mod 2;
            M = m * 2 ^ nat t;
            n = isqrt M
        in round64 False n ((e - t) div 2) (n * n \<noteq> M))"

fun Math_abs64 :: "f64 \<Rightarrow> f64" where
  "Math_abs64 (DFin s m e) = DFin False m e"
| "Math_abs64 (DInf s) = DInf False"
| "Math_abs64 DNaN = DNaN"


text \<open>
  For \<^verbatim>\<open>Math.cos\<close>, \<^verbatim>\<open>Math.sin\<close>, \<^verbatim>\<open>Math.atan2\<close> and \<^verbatim>\<open>Math.pow\<close> ECMAScript fixes the
  result at the arguments listed in its definitions of these functions (zeros,
  infinities, \<open>NaN\<close>) and leaves it to the implementation to approximate the real function
  elsewhere. The listed results are modelled as they are listed. Elsewhere the model
  takes the value nearest to the real result, \<open>approx64\<close> of it, which is what a faithful
  implementation aims at and is not computed here; for the exponent \<open>1/2\<close> that value is
  the correctly rounded square root. \<open>valR\<close> is the real number that a finite value
  stands for.
\<close>

fun valR :: "f64 \<Rightarrow> real" where
  "valR (DFin s m e) =
     real_of_int (signed_mant s m) * (if 0 \<le> e then 2 ^ nat e else 1 / 2 ^ nat (- e))"
| "valR (DInf s) = 0"
| "valR DNaN = 0"

definition approx64 :: "real \<Rightarrow> f64" where
  "approx64 r =
     (if r = 0 then DFin False 0 0
      else
        let k = \<lfloor>log 2 \<bar>r\<bar>\<rfloor> - 64;
            n = \<lfloor>\<bar>r\<bar> / 2 powr real_of_int k\<rfloor>
        in round64 (r < 0) n k (real_of_int n * 2 powr real_of_int k \<noteq> \<bar>r\<bar>))"

definition approx_cos :: "f64 \<Rightarrow> f64" where
  "approx_cos t = approx64 (cos (valR t))"

definition approx_sin :: "f64 \<Rightarrow> f64" where
  "approx_sin t = approx64 (sin (valR t))"

fun exact_angle :: "f64 \<Rightarrow> f64 \<Rightarrow> real" where
  "exact_angle (DInf s) (DInf t) = (if s then - 1 else 1) * (if t then 3 * pi / 4 else pi / 4)"
| "exact_angle (DInf s) _ = (if s then - 1 else 1) * (pi / 2)"
| "exact_angle (DFin s m e) (DInf t) = (if t then (if s then - pi else pi) else 0)"
| "exact_angle (DFin s m e) (DFin t n f) =
     (if m = 0 then (if t then (if s then - pi else pi) else 0)
      else atan2 (valR (DFin s m e)) (valR (DFin t n f)))"
| "exact_angle _ _ = 0"

definition approx_atan2 :: "f64 \<Rightarrow> f64 \<Rightarrow> f64" where
  "approx_atan2 y x = approx64 (exact_angle y x)"

definition approx_pow :: "f64 \<Rightarrow> f64 \<Rightarrow> f64" where
  "approx_pow base e = approx64 (valR base powr valR e)"

declare approx64_def [code del] approx_cos_def [code del] approx_sin_def [code del]
  approx_atan2_def [code del] approx_pow_def [code del]







section \<open>The geometry on binary64 values\<close>

text \<open>
  The class \<^verbatim>\<open>Complex\<close> and the functions of \<^verbatim>\<open>math.js\<close> that the evaluations on doubles
  need, read on binary64 values. Each definition is the one of the sections above with the
  rounded operations in the place of the exact ones; it carries the name of the source
  with the suffix \<open>64\<close>.
\<close>

datatype cpx64 = Cpx64 (xD: f64) (yD: f64)


definition sub64 :: "cpx64 \<Rightarrow> cpx64 \<Rightarrow> cpx64" where
  "sub64 this z = Cpx64 (xD this - xD z) (yD this - yD z)"





definition normSq64 :: "cpx64 \<Rightarrow> f64" where
  "normSq64 this = xD this * xD this + yD this * yD this"

definition getNorm64 :: "cpx64 \<Rightarrow> f64" where
  "getNorm64 this = Math_sqrt64 (normSq64 this)"









record Circle64 =
  center64 :: cpx64
  radius64 :: f64

definition circleFrom3Points64 :: "cpx64 \<Rightarrow> cpx64 \<Rightarrow> cpx64 \<Rightarrow> Circle64" where
  "circleFrom3Points64 p1 p2 p3 =
     (let A = xD p1 - xD p2;
          B = yD p1 - yD p2;
          C = xD p1 - xD p3;
          D = yD p1 - yD p3;
          E = (xD p1 * xD p1 - xD p2 * xD p2 + yD p1 * yD p1 - yD p2 * yD p2) * decimal 5 10;
          F = (xD p1 * xD p1 - xD p3 * xD p3 + yD p1 * yD p1 - yD p3 * yD p3) * decimal 5 10;
          det = A * D - B * C;
          cen = Cpx64 ((D * E - B * F) / det) (((- C) * E + A * F) / det);
          rad = getNorm64 (sub64 cen p1)
      in \<lparr> center64 = cen, radius64 = rad \<rparr>)"



section \<open>Auxiliary notions for the proofs\<close>

text \<open>
  A number is finite when it is none of the special values, a point when both of its
  coordinates are. \<open>ofC\<close> embeds the complex numbers of HOL as finite points; on them the
  methods of \<^verbatim>\<open>Complex\<close> are the field operations, which the lemmas below establish.
\<close>

fun isFinite :: "jsnum \<Rightarrow> bool" where
  "isFinite (Fin _) = True"
| "isFinite _ = False"

definition finiteC :: "cpx \<Rightarrow> bool" where
  "finiteC p = (isFinite (xC p) \<and> isFinite (yC p))"

definition ofC :: "complex \<Rightarrow> cpx" where
  "ofC z = Cpx (Fin (Re z)) (Fin (Im z))"

text \<open>The square root that \<^verbatim>\<open>root(2)[0]\<close> computes: half the angle, the root of the norm.\<close>

definition sqrt0 :: "complex \<Rightarrow> complex" where
  "sqrt0 w = cis (atan2 (Im w) (Re w) / 2) * of_real (sqrt (cmod w))"

definition mobius_sqrt :: "complex \<Rightarrow> complex \<Rightarrow> complex \<Rightarrow> complex" where
  "mobius_sqrt P Q R = sqrt0 ((P - R) * (Q - P) * (Q - R) * 2)"





text \<open>
  The same notions on binary64 values: a finite value, a zero of either sign, and the
  determinant as \<^verbatim>\<open>circleFrom3Points\<close> computes it.
\<close>

fun isFinite64 :: "f64 \<Rightarrow> bool" where
  "isFinite64 (DFin s m e) = True"
| "isFinite64 _ = False"

fun isZero64 :: "f64 \<Rightarrow> bool" where
  "isZero64 (DFin s m e) = (m = 0)"
| "isZero64 _ = False"

definition det64 :: "cpx64 \<Rightarrow> cpx64 \<Rightarrow> cpx64 \<Rightarrow> f64" where
  "det64 p1 p2 p3 = (xD p1 - xD p2) * (yD p1 - yD p3) - (yD p1 - yD p2) * (xD p1 - xD p3)"

section \<open>Arithmetic on finite numbers and points\<close>

lemma Fin_plus [simp]: "Fin u + Fin v = Fin (u + v)"
  by (simp add: plus_jsnum_def)
lemma Fin_minus [simp]: "Fin u - Fin v = Fin (u - v)"
  by (simp add: minus_jsnum_def)
lemma Fin_uminus [simp]: "- Fin u = Fin (- u)"
  by (simp add: uminus_jsnum_def)
lemma Fin_times [simp]: "Fin u * Fin v = Fin (u * v)"
  by (simp add: times_jsnum_def)
lemma Fin_divide [simp]: "v \<noteq> 0 \<Longrightarrow> Fin u / Fin v = Fin (u / v)"
  by (simp add: divide_jsnum_def)
lemma Fin_less [simp]: "Fin u < Fin v \<longleftrightarrow> u < v"
  by (simp add: less_jsnum_def)
lemma Fin_less_eq [simp]: "Fin u \<le> Fin v \<longleftrightarrow> u \<le> v"
  by (simp add: less_eq_jsnum_def)

lemma finiteC_ofC [simp]: "finiteC (ofC z)"
  by (simp add: finiteC_def ofC_def)

lemma finiteC_obtain: "finiteC p \<Longrightarrow> \<exists>z. p = ofC z"
proof -
  assume "finiteC p"
  then obtain u v where "p = Cpx (Fin u) (Fin v)"
    by (cases p; cases "xC p"; cases "yC p") (auto simp: finiteC_def)
  then have "p = ofC (Complex u v)" by (simp add: ofC_def)
  then show ?thesis ..
qed

lemma ofC_inject [simp]: "ofC u = ofC v \<longleftrightarrow> u = v"
  by (auto simp: ofC_def complex_eq_iff)

lemma cadd_ofC [simp]: "cadd (ofC u) (ofC v) = ofC (u + v)"
  by (simp add: cadd_def ofC_def)
lemma csub_ofC [simp]: "csub (ofC u) (ofC v) = ofC (u - v)"
  by (simp add: csub_def ofC_def)
lemma cmul_ofC [simp]: "cmul (ofC u) (ofC v) = ofC (u * v)"
  by (simp add: cmul_def ofC_def)
lemma mulRe_ofC [simp]: "mulRe (ofC u) (Fin k) = ofC (u * of_real k)"
  by (simp add: mulRe_def ofC_def)
lemma conj_ofC [simp]: "conj (ofC u) = ofC (cnj u)"
  by (simp add: conj_def ofC_def)
lemma normSq_ofC [simp]: "normSq (ofC u) = Fin ((Re u)\<^sup>2 + (Im u)\<^sup>2)"
  by (simp add: normSq_def ofC_def power2_eq_square)
lemma getNorm_ofC [simp]: "getNorm (ofC u) = Fin (cmod u)"
  by (simp add: getNorm_def cmod_def not_sum_power2_lt_zero)
lemma divRe_ofC [simp]: "k \<noteq> 0 \<Longrightarrow> divRe (ofC u) (Fin k) = ofC (u / of_real k)"
  by (simp add: divRe_def mulRe_def ofC_def power2_eq_square field_simps)
lemma normSq_nz: "u \<noteq> 0 \<Longrightarrow> (Re u)\<^sup>2 + (Im u)\<^sup>2 \<noteq> 0"
  by (simp add: complex_eq_iff sum_power2_eq_zero_iff)
lemma reciprocal_ofC [simp]:
  assumes "u \<noteq> 0"
  shows "reciprocal (ofC u) = ofC (inverse u)"
proof -
  have nz: "(Re u)\<^sup>2 + (Im u)\<^sup>2 \<noteq> 0"
    using assms by (rule normSq_nz)
  have "reciprocal (ofC u) = ofC (cnj u / of_real ((Re u)\<^sup>2 + (Im u)\<^sup>2))"
    by (simp only: reciprocal_def conj_ofC normSq_ofC divRe_ofC [OF nz])
  also have "cnj u / of_real ((Re u)\<^sup>2 + (Im u)\<^sup>2) = inverse u"
    by (simp add: complex_eq_iff)
  finally show ?thesis .
qed
lemma cdiv_ofC [simp]: "v \<noteq> 0 \<Longrightarrow> cdiv (ofC u) (ofC v) = ofC (u / v)"
  by (simp add: cdiv_def divide_inverse)


lemma sqrt_one_plus_sq_nz: "sqrt (1 + (t::real)\<^sup>2) \<noteq> 0"
proof -
  have "0 < 1 + t\<^sup>2"
    by (simp add: add_pos_nonneg)
  then show ?thesis by simp
qed

lemma atan2_cos: "sqrt (x\<^sup>2 + y\<^sup>2) * cos (atan2 y x) = x"
proof -
  consider "0 < x" | "x < 0" | "x = 0" by linarith
  then show ?thesis
  proof cases
    case 1
    then have "x\<^sup>2 + y\<^sup>2 = x\<^sup>2 * (1 + (y / x)\<^sup>2)"
      by (simp add: field_simps power2_eq_square)
    then have "sqrt (x\<^sup>2 + y\<^sup>2) = x * sqrt (1 + (y / x)\<^sup>2)"
      using 1 by (simp add: real_sqrt_mult)
    moreover have "sqrt (1 + (y / x)\<^sup>2) \<noteq> 0"
      by (rule sqrt_one_plus_sq_nz)
    ultimately show ?thesis
      using 1 by (simp add: atan2_def cos_arctan)
  next
    case 2
    then have "x\<^sup>2 + y\<^sup>2 = x\<^sup>2 * (1 + (y / x)\<^sup>2)"
      by (simp add: field_simps power2_eq_square)
    then have "sqrt (x\<^sup>2 + y\<^sup>2) = - x * sqrt (1 + (y / x)\<^sup>2)"
      using 2 by (simp add: real_sqrt_mult)
    moreover have "sqrt (1 + (y / x)\<^sup>2) \<noteq> 0"
      by (rule sqrt_one_plus_sq_nz)
    ultimately show ?thesis
      using 2 by (simp add: atan2_def cos_arctan)
  next
    case 3
    then show ?thesis by (simp add: atan2_def)
  qed
qed

lemma atan2_sin: "sqrt (x\<^sup>2 + y\<^sup>2) * sin (atan2 y x) = y"
proof -
  consider "0 < x" | "x < 0" | "x = 0" by linarith
  then show ?thesis
  proof cases
    case 1
    then have "x\<^sup>2 + y\<^sup>2 = x\<^sup>2 * (1 + (y / x)\<^sup>2)"
      by (simp add: field_simps power2_eq_square)
    then have "sqrt (x\<^sup>2 + y\<^sup>2) = x * sqrt (1 + (y / x)\<^sup>2)"
      using 1 by (simp add: real_sqrt_mult)
    moreover have "sqrt (1 + (y / x)\<^sup>2) \<noteq> 0"
      by (rule sqrt_one_plus_sq_nz)
    ultimately show ?thesis
      using 1 by (simp add: atan2_def sin_arctan)
  next
    case 2
    then have "x\<^sup>2 + y\<^sup>2 = x\<^sup>2 * (1 + (y / x)\<^sup>2)"
      by (simp add: field_simps power2_eq_square)
    then have "sqrt (x\<^sup>2 + y\<^sup>2) = - x * sqrt (1 + (y / x)\<^sup>2)"
      using 2 by (simp add: real_sqrt_mult)
    moreover have "sqrt (1 + (y / x)\<^sup>2) \<noteq> 0"
      by (rule sqrt_one_plus_sq_nz)
    ultimately show ?thesis
      using 2 by (simp add: atan2_def sin_arctan)
  next
    case 3
    then show ?thesis by (simp add: atan2_def)
  qed
qed

lemma sqrt0_power2: "(sqrt0 w)\<^sup>2 = w"
proof -
  have "(sqrt0 w)\<^sup>2 = cis (atan2 (Im w) (Re w)) * of_real (cmod w)"
    by (simp add: sqrt0_def power_mult_distrib DeMoivre flip: of_real_power)
  also have "\<dots> = w"
    using atan2_cos [of "Re w" "Im w"] atan2_sin [of "Re w" "Im w"]
    by (simp add: complex_eq_iff cmod_def mult.commute)
  finally show ?thesis .
qed

lemma sqrt0_nonzero: "w \<noteq> 0 \<Longrightarrow> sqrt0 w \<noteq> 0"
  using sqrt0_power2 [of w] by auto

lemma root_2_length: "length (root z 2) = 2"
  by (simp add: root_def Let_def)

lemma xC_ofC [simp]: "xC (ofC w) = Fin (Re w)"
  by (simp add: ofC_def)

lemma yC_ofC [simp]: "yC (ofC w) = Fin (Im w)"
  by (simp add: ofC_def)

lemma root_2_ofC: "root (ofC w) 2 ! 0 = ofC (sqrt0 w)"
proof -
  have "[0 ..< 2] = [0, Suc 0]"
    by (simp add: upt_rec)
  then have "root (ofC w) 2 ! 0
      = mulRe (versor (Fin (atan2 (Im w) (Re w) / 2))) (Fin (sqrt (cmod w)))"
    by (simp add: root_def Let_def powr_half_sqrt Math_PI_def)
  also have "\<dots> = ofC (sqrt0 w)"
    by (simp add: versor_def mulRe_def sqrt0_def ofC_def)
  finally show ?thesis .
qed


lemma mobius_sqrt_power2: "(mobius_sqrt P Q R)\<^sup>2 = (P - R) * (Q - P) * (Q - R) * 2"
  by (simp add: mobius_sqrt_def sqrt0_power2)

lemma mobius_sqrt_nonzero: "P \<noteq> Q \<Longrightarrow> Q \<noteq> R \<Longrightarrow> P \<noteq> R \<Longrightarrow> mobius_sqrt P Q R \<noteq> 0"
  unfolding mobius_sqrt_def by (rule sqrt0_nonzero) simp

lemma Mobius_ofC:
  assumes "P \<noteq> Q" "Q \<noteq> R" "P \<noteq> R"
  shows "MobiusMap3PointsTo_m101 (ofC P) (ofC Q) (ofC R) =
    \<lparr> m_a = ofC ((P - R) / mobius_sqrt P Q R),
      m_b = ofC (Q * (-1) * (P - R) / mobius_sqrt P Q R),
      m_c = ofC ((Q - P + (Q - R)) / mobius_sqrt P Q R),
      m_d = ofC ((P * (-1) * (Q - R) - R * (Q - P)) / mobius_sqrt P Q R) \<rparr>"
proof -
  have nz: "mobius_sqrt P Q R \<noteq> 0"
    using assms by (rule mobius_sqrt_nonzero)
  have "root (mulRe (cmul (cmul (csub (ofC P) (ofC R)) (csub (ofC Q) (ofC P)))
            (csub (ofC Q) (ofC R))) (Fin 2)) 2 ! 0 = ofC (mobius_sqrt P Q R)"
    by (simp add: root_2_ofC mobius_sqrt_def)
  then show ?thesis
    using nz by (simp add: MobiusMap3PointsTo_m101_def Let_def)
qed


lemma apply_inverted_ofC:
  assumes "aa - cc * z \<noteq> 0"
  shows "applyMobiusTrans \<lparr> m_a = ofC aa, m_b = ofC bb, m_c = ofC cc, m_d = ofC dd \<rparr> (ofC z) True
         = ofC ((dd * z - bb) / (aa - cc * z))"
  using assms by (simp add: applyMobiusTrans_def)



lemma not_finiteC_NaN [simp]: "\<not> finiteC (Cpx NaN NaN)"
  by (simp add: finiteC_def)

text \<open>The determinant of the closed-form coefficients.\<close>

lemma mobius_det:
  assumes "P \<noteq> Q" "Q \<noteq> R" "P \<noteq> R"
  defines "s \<equiv> mobius_sqrt P Q R"
  shows "(P - R) / s * ((P * (-1) * (Q - R) - R * (Q - P)) / s)
          - Q * (-1) * (P - R) / s * ((Q - P + (Q - R)) / s) = 1"
proof -
  have nz: "s \<noteq> 0"
    unfolding s_def using assms(1-3) by (rule mobius_sqrt_nonzero)
  have sq: "s * s = (P - R) * (Q - P) * (Q - R) * 2"
    unfolding s_def using mobius_sqrt_power2 [of P Q R] by (simp add: power2_eq_square)
  have "(P - R) / s * ((P * (-1) * (Q - R) - R * (Q - P)) / s)
          - Q * (-1) * (P - R) / s * ((Q - P + (Q - R)) / s)
        = ((P - R) * (P * (-1) * (Q - R) - R * (Q - P)) - Q * (-1) * (P - R) * (Q - P + (Q - R))) / (s * s)"
    using nz by (simp add: field_simps)
  also have "(P - R) * (P * (-1) * (Q - R) - R * (Q - P)) - Q * (-1) * (P - R) * (Q - P + (Q - R))
        = (P - R) * (Q - P) * (Q - R) * 2"
    by (simp add: algebra_simps)
  also have "\<dots> / (s * s) = 1"
    using nz by (simp flip: sq)
  finally show ?thesis .
qed

section \<open>Claims about the M\"obius transform\<close>

text \<open>
  Claim C10. For all pairwise distinct points \<open>P\<close>, \<open>Q\<close>, \<open>R\<close> (with finite coordinates)
  the coefficients that \<^verbatim>\<open>MobiusMap3PointsTo_m101\<close> returns satisfy \<open>a d - b c = 1\<close>
  exactly, computed with the methods of \<^verbatim>\<open>Complex\<close>: the transform is unimodular.
\<close>

theorem MobiusMap_unimodular:
  assumes "finiteC P" "finiteC Q" "finiteC R"
    and "P \<noteq> Q" "Q \<noteq> R" "P \<noteq> R"
  shows "csub (cmul (m_a (MobiusMap3PointsTo_m101 P Q R)) (m_d (MobiusMap3PointsTo_m101 P Q R)))
              (cmul (m_b (MobiusMap3PointsTo_m101 P Q R)) (m_c (MobiusMap3PointsTo_m101 P Q R)))
         = Cpx (Fin 1) (Fin 0)"
proof -
  obtain p q r where pqr: "P = ofC p" "Q = ofC q" "R = ofC r"
    using assms(1-3) finiteC_obtain by blast
  have ne: "p \<noteq> q" "q \<noteq> r" "p \<noteq> r"
    using assms(4-6) pqr by auto
  have "Cpx (Fin 1) (Fin 0) = ofC 1"
    by (simp add: ofC_def)
  then show ?thesis
    using mobius_det [OF ne] by (simp add: pqr Mobius_ofC [OF ne])
qed

theorem MobiusMap_unimodular_witness:
  "finiteC (Cpx (Fin (- 1)) (Fin 0)) \<and> finiteC (Cpx (Fin 0) (Fin 0)) \<and> finiteC (Cpx (Fin 1) (Fin 0))
   \<and> Cpx (Fin (- 1)) (Fin 0) \<noteq> Cpx (Fin 0) (Fin 0)
   \<and> Cpx (Fin 0) (Fin 0) \<noteq> Cpx (Fin 1) (Fin 0)
   \<and> Cpx (Fin (- 1)) (Fin 0) \<noteq> Cpx (Fin 1) (Fin 0)
   \<and> csub (cmul (m_a (MobiusMap3PointsTo_m101 (Cpx (Fin (- 1)) (Fin 0)) (Cpx (Fin 0) (Fin 0)) (Cpx (Fin 1) (Fin 0))))
                  (m_d (MobiusMap3PointsTo_m101 (Cpx (Fin (- 1)) (Fin 0)) (Cpx (Fin 0) (Fin 0)) (Cpx (Fin 1) (Fin 0)))))
            (cmul (m_b (MobiusMap3PointsTo_m101 (Cpx (Fin (- 1)) (Fin 0)) (Cpx (Fin 0) (Fin 0)) (Cpx (Fin 1) (Fin 0))))
                  (m_c (MobiusMap3PointsTo_m101 (Cpx (Fin (- 1)) (Fin 0)) (Cpx (Fin 0) (Fin 0)) (Cpx (Fin 1) (Fin 0)))))
       = Cpx (Fin 1) (Fin 0)"
  using MobiusMap_unimodular [of "Cpx (Fin (- 1)) (Fin 0)" "Cpx (Fin 0) (Fin 0)" "Cpx (Fin 1) (Fin 0)"]
  by (simp add: finiteC_def)





lemma mobius_sqrt_m101: "mobius_sqrt (- 1) 0 1 = 2"
  by (simp add: mobius_sqrt_def sqrt0_def atan2_def)

lemma MMap01_value:
  "MobiusMap3PointsTo_m101 (Cpx (Fin (- 1)) (Fin 0)) (Cpx (Fin 0) (Fin 0)) (Cpx (Fin 1) (Fin 0))
   = \<lparr> m_a = Cpx (Fin (- 1)) (Fin 0), m_b = Cpx (Fin 0) (Fin 0),
       m_c = Cpx (Fin 0) (Fin 0), m_d = Cpx (Fin (- 1)) (Fin 0) \<rparr>"
proof -
  have e: "Cpx (Fin (- 1)) (Fin 0) = ofC (- 1)" "Cpx (Fin 0) (Fin 0) = ofC 0"
    "Cpx (Fin 1) (Fin 0) = ofC 1"
    by (simp_all add: ofC_def)
  have ne: "(- 1 :: complex) \<noteq> 0" "(0 :: complex) \<noteq> 1" "(- 1 :: complex) \<noteq> 1"
    by simp_all
  show ?thesis
    unfolding e Mobius_ofC [OF ne] mobius_sqrt_m101 by simp
qed

lemma apply_MMap01_forward:
  "applyMobiusTrans \<lparr> m_a = Cpx (Fin (- 1)) (Fin 0), m_b = Cpx (Fin 0) (Fin 0),
       m_c = Cpx (Fin 0) (Fin 0), m_d = Cpx (Fin (- 1)) (Fin 0) \<rparr> (Cpx (Fin u) (Fin v)) inverted
   = Cpx (Fin u) (Fin v)"
  by (simp add: applyMobiusTrans_def cdiv_def reciprocal_def conj_def normSq_def divRe_def
      mulRe_def cmul_def cadd_def csub_def)








section \<open>Claims about the circle through three points\<close>

lemma circleFrom3Points_finite:
  fixes x1 y1 x2 y2 x3 y3 :: real
  defines "det \<equiv> (x1 - x2) * (y1 - y3) - (y1 - y2) * (x1 - x3)"
  defines "E \<equiv> (x1 * x1 - x2 * x2 + y1 * y1 - y2 * y2) * (1 / 2)"
  defines "F \<equiv> (x1 * x1 - x3 * x3 + y1 * y1 - y3 * y3) * (1 / 2)"
  defines "cx \<equiv> ((y1 - y3) * E - (y1 - y2) * F) / det"
  defines "cy \<equiv> ((- (x1 - x3)) * E + (x1 - x2) * F) / det"
  assumes nz: "det \<noteq> 0"
  shows "circleFrom3Points (Cpx (Fin x1) (Fin y1)) (Cpx (Fin x2) (Fin y2)) (Cpx (Fin x3) (Fin y3))
         = \<lparr> center = Cpx (Fin cx) (Fin cy),
             radius = Fin (sqrt ((cx - x1)\<^sup>2 + (cy - y1)\<^sup>2)) \<rparr>"
  using nz unfolding det_def
  by (simp add: circleFrom3Points_def Let_def getNorm_def normSq_def csub_def cx_def cy_def E_def F_def
      det_def power2_eq_square not_less)







lemma getNorm_csub_Fin:
  "getNorm (csub (Cpx (Fin cx) (Fin cy)) (Cpx (Fin u) (Fin v))) = Fin (sqrt ((cx - u)\<^sup>2 + (cy - v)\<^sup>2))"
  by (simp add: getNorm_def normSq_def csub_def power2_eq_square not_less)





lemma div_zero_not_finite64: "isZero64 z \<Longrightarrow> \<not> isFinite64 (x / z)"
  by (cases x; cases z) (simp_all add: divide_f64_def)

lemma sub_not_finite64: "\<not> isFinite64 a \<Longrightarrow> \<not> isFinite64 (a - b)"
  by (cases a; cases b) (simp_all add: minus_f64_def)

lemma square_not_finite64: "\<not> isFinite64 a \<Longrightarrow> \<not> isFinite64 (a * a)"
  by (cases a) (simp_all add: times_f64_def)

lemma add_not_finite64: "\<not> isFinite64 a \<Longrightarrow> \<not> isFinite64 b \<Longrightarrow> \<not> isFinite64 (a + b)"
  by (cases a; cases b) (simp_all add: plus_f64_def)

lemma sqrt_not_finite64: "\<not> isFinite64 a \<Longrightarrow> \<not> isFinite64 (Math_sqrt64 a)"
  by (cases a) simp_all

text \<open>
  Claim C2, as stated, says that \<^verbatim>\<open>circleFrom3Points\<close> fails detectably on every collinear
  triple, whose determinant is below \<^verbatim>\<open>1e-12\<close> in magnitude, instead of returning a
  garbage center and radius. The function has no test of the determinant, no threshold
  and no failing branch. The points \<open>(1, 3)\<close>, \<open>(-2\<^sup>-\<^sup>5\<^sup>3, -3 \<cdot> 2\<^sup>-\<^sup>5\<^sup>3)\<close> and \<open>(0, 0)\<close> are
  doubles on the line \<open>y = 3 x\<close>. The differences \<open>1 + 2\<^sup>-\<^sup>5\<^sup>3\<close> and \<open>3 + 3 \<cdot> 2\<^sup>-\<^sup>5\<^sup>3\<close> round to
  \<open>1\<close> and \<open>3 + 2\<^sup>-\<^sup>5\<^sup>1\<close>, the computed determinant is \<open>-2\<^sup>-\<^sup>5\<^sup>1\<close>, and the function returns the
  finite center \<open>(4, -0)\<close> and the finite radius \<open>4.242640687119285\<close>.
\<close>

theorem circleFrom3Points_collinear_counterexample:
  "circleFrom3Points64 (Cpx64 (decimal 1 1) (decimal 3 1))
     (Cpx64 (DFin True 1 (- 53)) (DFin True 3 (- 53))) (Cpx64 (decimal 0 1) (decimal 0 1))
   = \<lparr> center64 = Cpx64 (DFin False 1 2) (DFin True 0 0),
       radius64 = DFin False 4776788754394329 (- 50) \<rparr>
   \<and> (valR (decimal 1 1) - valR (DFin True 1 (- 53))) * (valR (decimal 3 1) - valR (decimal 0 1))
      - (valR (decimal 3 1) - valR (DFin True 3 (- 53))) * (valR (decimal 1 1) - valR (decimal 0 1))
      = 0
   \<and> det64 (Cpx64 (decimal 1 1) (decimal 3 1))
        (Cpx64 (DFin True 1 (- 53)) (DFin True 3 (- 53))) (Cpx64 (decimal 0 1) (decimal 0 1))
      = DFin True 1 (- 51)
   \<and> Math_abs64 (DFin True 1 (- 51)) < decimal 1 (10 ^ 12)"
  by code_simp

text \<open>
  Claim C2, amended. \<^verbatim>\<open>circleFrom3Points\<close> never fails and has no threshold; being
  given non-collinear points is its precondition. Whenever the determinant that it
  computes is a zero, it returns a circle none of whose three numbers is finite: both
  coordinates of the center and the radius are \<open>NaN\<close> or an infinity, by which a caller
  can tell the case. For a collinear triple whose computed determinant is not a zero
  nothing is promised. The statement is about the arithmetic of the program, on binary64
  values.
\<close>

theorem circleFrom3Points_zero_determinant:
  assumes "isZero64 (det64 p1 p2 p3)"
  shows "\<not> isFinite64 (xD (center64 (circleFrom3Points64 p1 p2 p3)))
       \<and> \<not> isFinite64 (yD (center64 (circleFrom3Points64 p1 p2 p3)))
       \<and> \<not> isFinite64 (radius64 (circleFrom3Points64 p1 p2 p3))"
proof -
  define E where
    "E = (xD p1 * xD p1 - xD p2 * xD p2 + yD p1 * yD p1 - yD p2 * yD p2) * decimal 5 10"
  define F where
    "F = (xD p1 * xD p1 - xD p3 * xD p3 + yD p1 * yD p1 - yD p3 * yD p3) * decimal 5 10"
  define cx where "cx = ((yD p1 - yD p3) * E - (yD p1 - yD p2) * F) / det64 p1 p2 p3"
  define cy where "cy = ((- (xD p1 - xD p3)) * E + (xD p1 - xD p2) * F) / det64 p1 p2 p3"
  have c: "circleFrom3Points64 p1 p2 p3
      = \<lparr> center64 = Cpx64 cx cy, radius64 = getNorm64 (sub64 (Cpx64 cx cy) p1) \<rparr>"
    unfolding circleFrom3Points64_def Let_def cx_def cy_def E_def F_def det64_def ..
  have x: "\<not> isFinite64 cx" and y: "\<not> isFinite64 cy"
    unfolding cx_def cy_def by (rule div_zero_not_finite64 [OF assms])+
  have "\<not> isFinite64 (getNorm64 (sub64 (Cpx64 cx cy) p1))"
    unfolding getNorm64_def normSq64_def sub64_def cpx64.sel
    by (intro sqrt_not_finite64 add_not_finite64 square_not_finite64 sub_not_finite64 x y)
  then show ?thesis
    unfolding c using x y by simp
qed

theorem circleFrom3Points_zero_determinant_witness:
  "isZero64 (det64 (Cpx64 (decimal 0 1) (decimal 0 1)) (Cpx64 (decimal 1 1) (decimal 0 1))
              (Cpx64 (decimal 2 1) (decimal 0 1)))
   \<and> \<not> isFinite64 (xD (center64 (circleFrom3Points64 (Cpx64 (decimal 0 1) (decimal 0 1))
          (Cpx64 (decimal 1 1) (decimal 0 1)) (Cpx64 (decimal 2 1) (decimal 0 1)))))
   \<and> \<not> isFinite64 (yD (center64 (circleFrom3Points64 (Cpx64 (decimal 0 1) (decimal 0 1))
          (Cpx64 (decimal 1 1) (decimal 0 1)) (Cpx64 (decimal 2 1) (decimal 0 1)))))
   \<and> \<not> isFinite64 (radius64 (circleFrom3Points64 (Cpx64 (decimal 0 1) (decimal 0 1))
          (Cpx64 (decimal 1 1) (decimal 0 1)) (Cpx64 (decimal 2 1) (decimal 0 1))))"
proof -
  have z: "isZero64 (det64 (Cpx64 (decimal 0 1) (decimal 0 1)) (Cpx64 (decimal 1 1) (decimal 0 1))
              (Cpx64 (decimal 2 1) (decimal 0 1)))"
    by code_simp
  show ?thesis
    using circleFrom3Points_zero_determinant [OF z] z by simp
qed

section \<open>Claims about the intersection routines\<close>


lemma getNorm_Fin: "getNorm (Cpx (Fin u) (Fin v)) = Fin (sqrt (u\<^sup>2 + v\<^sup>2))"
  by (simp add: getNorm_def normSq_def power2_eq_square not_less)




lemma iCOL_nonvertical:
  fixes cx cy r dx dy :: real
  assumes nv: "1 / 10 ^ 12 < \<bar>dx\<bar>"
  defines "m \<equiv> dy / dx"
  defines "A \<equiv> 1 + m * m"
  defines "B \<equiv> - 2 * (cx + m * cy)"
  defines "C \<equiv> cx * cx + cy * cy - r * r"
  defines "disc \<equiv> B * B - 4 * A * C"
  defines "x1 \<equiv> (- B + sqrt disc) / (2 * A)"
  defines "x2 \<equiv> (- B - sqrt disc) / (2 * A)"
  shows "intersectCircleWithOriginLine (Cpx (Fin cx) (Fin cy)) (Fin r) (Cpx (Fin dx) (Fin dy))
    = (if disc < 0 then None
       else Some (if sqrt (x1\<^sup>2 + (m * x1)\<^sup>2) < sqrt (x2\<^sup>2 + (m * x2)\<^sup>2)
                  then Cpx (Fin x1) (Fin (m * x1)) else Cpx (Fin x2) (Fin (m * x2))))"
proof -
  have dx: "dx \<noteq> 0"
    using nv by auto
  have gate: "eps12 < Math_abs (- Fin dx)"
    using nv by simp
  have slope: "(- Fin dy) / (- Fin dx) = Fin m"
    using dx by (simp add: m_def)
  have "0 < A"
    unfolding A_def by (simp add: add_pos_nonneg)
  then have A2: "2 * A \<noteq> 0"
    by simp
  have eA: "Fin 1 + Fin m * Fin m = Fin A"
    by (simp add: A_def)
  have eB: "Fin (- 2) * (Fin cx + Fin m * Fin cy) = Fin B"
    by (simp add: B_def)
  have eC: "Fin cx * Fin cx + Fin cy * Fin cy - Fin r * Fin r = Fin C"
    by (simp add: C_def)
  have eD: "Fin B * Fin B - Fin 4 * Fin A * Fin C = Fin disc"
    by (simp add: disc_def)
  have lt: "Fin disc < Fin 0 \<longleftrightarrow> disc < 0"
    by simp
  have e1: "\<not> disc < 0 \<Longrightarrow> ((- Fin B) + Math_sqrt (Fin disc)) / (Fin 2 * Fin A) = Fin x1"
    using A2 by (simp add: x1_def)
  have e2: "\<not> disc < 0 \<Longrightarrow> ((- Fin B) - Math_sqrt (Fin disc)) / (Fin 2 * Fin A) = Fin x2"
    using A2 by (simp add: x2_def)
  have y1: "Fin m * Fin x1 = Fin (m * x1)" and y2: "Fin m * Fin x2 = Fin (m * x2)"
    by simp_all
  show ?thesis
  proof (cases "disc < 0")
    case True
    then show ?thesis
      unfolding intersectCircleWithOriginLine_def Let_def cpx.sel
      by (simp only: gate if_True slope eA eB eC eD lt)
  next
    case False
    then show ?thesis
      unfolding intersectCircleWithOriginLine_def Let_def cpx.sel
      by (simp only: gate if_True if_False slope eA eB eC eD lt e1 [OF False] e2 [OF False]
          y1 y2 getNorm_Fin Fin_less)
  qed
qed









lemma norm_on_line:
  fixes m x :: real
  shows "x\<^sup>2 + (m * x)\<^sup>2 = (1 + m * m) * x\<^sup>2"
  by (simp add: power2_eq_square algebra_simps)








section \<open>Claims about the reduction loop\<close>

lemma pass_fund_domain:
  assumes "st_fund (tilingSample_pass ic ir rn s)"
  shows "ir * ir \<le> normSq_v (vsub (st_z (tilingSample_pass ic ir rn s)) ic)
       \<and> 0 \<le> dot (st_z (tilingSample_pass ic ir rn s)) rn
       \<and> 0 \<le> vec_y (st_z (tilingSample_pass ic ir rn s))"
  using assms
  by (simp add: tilingSample_pass_def Let_def not_less split: if_splits)

text \<open>
  Claim C9. Whenever the reduction loop of \<^verbatim>\<open>tilingSample\<close> is left by its early
  \<^verbatim>\<open>break\<close>, the reduced point \<open>z\<close> lies in the fundamental domain:
  \<open>|z - invCen|\<^sup>2 \<ge> invRad\<^sup>2\<close>, \<open>dot(z, refNrm) \<ge> 0\<close> and \<open>z.y \<ge> 0\<close>, for every starting
  state, all values of the uniforms and every iteration bound. The statement is for the
  loop from any value \<open>i\<close> of its counter on, which the induction needs; the loop of the
  shader starts at \<open>i = 0\<close>.
\<close>

theorem tilingSample_loop_break_fundamental:
  "tilingSample_loop ic ir rn nIt i s = (s', True) \<Longrightarrow>
     ir * ir \<le> normSq_v (vsub (st_z s') ic) \<and> 0 \<le> dot (st_z s') rn \<and> 0 \<le> vec_y (st_z s')"
proof (induction ic ir rn nIt i s rule: tilingSample_loop.induct)
  case (1 invCen invRad refNrm nIterations i s)
  show ?case
  proof (cases "i < nIterations")
    case False
    with "1.prems" show ?thesis by simp
  next
    case True
    show ?thesis
    proof (cases "st_fund (tilingSample_pass invCen invRad refNrm s)")
      case fund: True
      with True "1.prems" have "s' = tilingSample_pass invCen invRad refNrm s"
        by (simp add: Let_def)
      with fund show ?thesis
        using pass_fund_domain by blast
    next
      case nofund: False
      with True "1.prems" have
        "tilingSample_loop invCen invRad refNrm nIterations (i + 1)
           (tilingSample_pass invCen invRad refNrm s) = (s', True)"
        by (simp add: Let_def)
      with "1.IH" [OF True refl nofund] show ?thesis .
    qed
  qed
qed

theorem tilingSample_loop_break_fundamental_witness:
  "tilingSample_loop (Vec2 2 0) 1 (Vec2 0 1) 1 0
      \<lparr> st_z = Vec2 (1 / 2) (1 / 10), st_fund = False, st_n = 0, st_a = 0,
        st_col0 = 0, st_col1 = 0, st_col2 = 0, st_pol_col = 0 \<rparr>
     = (\<lparr> st_z = Vec2 (1 / 2) (1 / 10), st_fund = True, st_n = 0, st_a = 0,
          st_col0 = 0, st_col1 = 0, st_col2 = 0, st_pol_col = 0 \<rparr>, True)
   \<and> (1 :: real) * 1 \<le> normSq_v (vsub (Vec2 (1 / 2) (1 / 10)) (Vec2 2 0))
   \<and> 0 \<le> dot (Vec2 (1 / 2) (1 / 10)) (Vec2 0 1)
   \<and> 0 \<le> vec_y (Vec2 (1 / 2) (1 / 10))"
proof -
  have e: "tilingSample_loop (Vec2 2 0) 1 (Vec2 0 1) 1 0
      \<lparr> st_z = Vec2 (1 / 2) (1 / 10), st_fund = False, st_n = 0, st_a = 0,
        st_col0 = 0, st_col1 = 0, st_col2 = 0, st_pol_col = 0 \<rparr>
     = (\<lparr> st_z = Vec2 (1 / 2) (1 / 10), st_fund = True, st_n = 0, st_a = 0,
          st_col0 = 0, st_col1 = 0, st_col2 = 0, st_pol_col = 0 \<rparr>, True)"
    by (subst tilingSample_loop.simps)
      (simp add: tilingSample_pass_def Let_def vsub_def normSq_v_def dot_def power2_eq_square)
  show ?thesis
    using tilingSample_loop_break_fundamental [OF e] e by simp
qed

section \<open>Claims about the generator\<close>

text \<open>A \<open>NaN\<close> operand makes every arithmetic result \<open>NaN\<close> and every comparison false.\<close>

lemma NaN_arith [simp]:
  "NaN + s = NaN" "s + NaN = NaN" "NaN - s = NaN" "s - NaN = NaN"
  "NaN * s = NaN" "s * NaN = NaN" "NaN / s = NaN" "s / NaN = NaN" "- NaN = NaN"
  by (cases s; simp add: plus_jsnum_def minus_jsnum_def times_jsnum_def divide_jsnum_def
      uminus_jsnum_def)+

lemma NaN_compare [simp]:
  "\<not> NaN < s" "\<not> s < NaN" "\<not> NaN \<le> s" "\<not> s \<le> NaN"
  by (cases s; simp add: less_jsnum_def less_eq_jsnum_def)+

lemma isInsideTriangle_NaN: "isInsideTriangle p ta (Cpx NaN NaN) tc = False"
  by (simp add: isInsideTriangle_def Let_def)

lemma vertices_3_3:
  "vt_V1 (generateTilingParams_vertices (Fin 3) (Fin 3)) = Cpx NaN NaN"
proof -
  have t: "sin (pi / 3) / cos (pi / 3) = sqrt 3"
    by (simp add: sin_60 cos_60)
  have nz: "1 / sqrt 3 + sqrt 3 \<noteq> 0"
    by (simp add: add_pos_pos pos_add_strict less_imp_neq [symmetric])
  have neg: "(1 / sqrt 3 - sqrt 3) / (1 / sqrt 3 + sqrt 3) < 0"
    by (simp add: field_simps)
  have r: "Math_sqrt ((Fin 1 / Math_tan (Math_PI / Fin 3)
              - yC (versor (Math_PI / Fin 3)) / xC (versor (Math_PI / Fin 3)))
             / (Fin 1 / Math_tan (Math_PI / Fin 3)
              + yC (versor (Math_PI / Fin 3)) / xC (versor (Math_PI / Fin 3)))) = NaN"
    using nz neg by (simp add: Math_PI_def versor_def sin_60 cos_60)
  show ?thesis
    by (simp add: generateTilingParams_vertices_def Let_def r getNormalized_def getNorm_def
        normSq_def csub_def divRe_def mulRe_def)
qed


text \<open>
  Claim C1, as stated, says that \<^verbatim>\<open>generateTilingParams\<close> fails with an explicit
  \<^verbatim>\<open>InvalidTilingError\<close> before any geometry is constructed, for every pair with
  \<open>(p - 2) (q - 2) \<le> 4\<close>. The generator contains no test of \<open>p\<close> and \<open>q\<close> and no such
  error. For \<open>(3, 3)\<close> and the thickness \<open>0.02\<close> the radicand of \<^verbatim>\<open>rSide\<close> is \<open>-1/2\<close>, the
  vertex \<^verbatim>\<open>V1\<close> is \<open>(NaN, NaN)\<close>, all three thick-edge circles are constructed, no
  intersection point passes \<^verbatim>\<open>isInsideTriangle\<close>, and the generator ends in the
  \<^verbatim>\<open>TypeError\<close> of \<^verbatim>\<open>enlargedCircleAtPoint(undefined, ...)\<close>.
\<close>

theorem generateTilingParams_3_3_counterexample:
  "generateTilingParams (Fin 3) (Fin 3) (Fin (1 / 50)) = Inl TypeError
   \<and> (Fin 3 - Fin 2) * (Fin 3 - Fin 2) \<le> Fin 4"
  by (simp add: generateTilingParams_def Let_def vertices_3_3 isInsideTriangle_NaN
      split: list.splits option.splits)

text \<open>
  Claim C1, amended. The test of the Schl\"afli symbol is the guard of \<^verbatim>\<open>setValues\<close>, the
  caller of the generator in the settings menu: for every integer pair with
  \<open>(p - 2) (q - 2) \<le> 4\<close> and every edge thickness, \<^verbatim>\<open>setValues\<close> sets the flag
  \<^verbatim>\<open>hasError\<close> and returns without calling \<^verbatim>\<open>generateTilingParams\<close>; the stored
  parameters and descriptor stay as they were and no exception is raised.
\<close>

theorem setValues_invalid:
  fixes p q :: int
  assumes "(p - 2) * (q - 2) \<le> 4"
  shows "setValues st (Fin (of_int p)) (Fin (of_int q)) edgeThickness
         = (st \<lparr> hasError := True \<rparr>, None)"
proof -
  have "(real_of_int p - 2) * (real_of_int q - 2) = real_of_int ((p - 2) * (q - 2))"
    by simp
  also have "\<dots> \<le> 4"
    using assms by linarith
  finally show ?thesis
    by (simp add: setValues_def)
qed

theorem setValues_invalid_witness:
  "((3 :: int) - 2) * (3 - 2) \<le> 4
   \<and> setValues \<lparr> hasError = False,
          params = \<lparr> tiling = None, pValue = Fin 4, qValue = Fin 5, eThickness = Fin (3 / 200),
                     others = () \<rparr> \<rparr>
        (Fin (of_int 3)) (Fin (of_int 3)) (Fin (1 / 50))
      = (\<lparr> hasError = True,
           params = \<lparr> tiling = None, pValue = Fin 4, qValue = Fin 5, eThickness = Fin (3 / 200),
                      others = () \<rparr> \<rparr>, None)"
  using setValues_invalid [of 3 3 "\<lparr> hasError = False,
          params = \<lparr> tiling = None, pValue = Fin 4, qValue = Fin 5, eThickness = Fin (3 / 200),
                     others = () \<rparr> \<rparr>" "Fin (1 / 50)"]
  by simp

text \<open>
  The vertices for a valid Schl\"afli symbol. With \<open>\<alpha> = \<pi>/p\<close> and \<open>\<beta> = \<pi>/q\<close> the
  inequality \<open>(p - 2) (q - 2) > 4\<close> is \<open>\<alpha> + \<beta> < \<pi>/2\<close>, which makes the radicand of
  \<^verbatim>\<open>rSide\<close> lie strictly between \<open>0\<close> and \<open>1\<close>.
\<close>

lemma valid_symbol_angles:
  fixes p q :: int
  assumes p: "3 \<le> p" and q: "3 \<le> q" and hyp: "4 < (p - 2) * (q - 2)"
  shows "0 < pi / real_of_int p" and "pi / real_of_int p \<le> pi / 3"
    and "0 < pi / real_of_int q" and "pi / real_of_int q \<le> pi / 3"
    and "pi / real_of_int p + pi / real_of_int q < pi / 2"
proof -
  have pp: "0 < real_of_int p" and qq: "0 < real_of_int q"
    using p q by simp_all
  show "0 < pi / real_of_int p" "0 < pi / real_of_int q"
    using pp qq by simp_all
  have "3 \<le> real_of_int p"
    using p by simp
  then show "pi / real_of_int p \<le> pi / 3"
    by (intro divide_left_mono) simp_all
  have "3 \<le> real_of_int q"
    using q by simp
  then show "pi / real_of_int q \<le> pi / 3"
    by (intro divide_left_mono) simp_all
  have "2 * (p + q) < p * q"
    using hyp by (simp add: algebra_simps)
  then have "real_of_int (2 * (p + q)) < real_of_int (p * q)"
    by (simp only: of_int_less_iff)
  then have lt: "2 * (real_of_int p + real_of_int q) < real_of_int p * real_of_int q"
    by simp
  have "pi / real_of_int p + pi / real_of_int q
        = pi * (real_of_int p + real_of_int q) / (real_of_int p * real_of_int q)"
    using pp qq by (simp add: field_simps)
  also have "\<dots> < pi / 2"
  proof -
    have "pi * (2 * (real_of_int p + real_of_int q)) < pi * (real_of_int p * real_of_int q)"
      using lt by (simp add: mult_strict_left_mono)
    then show ?thesis
      using pp qq by (simp add: field_simps)
  qed
  finally show "pi / real_of_int p + pi / real_of_int q < pi / 2" .
qed

lemma angle_trig:
  fixes x :: real
  assumes "0 < x" "x \<le> pi / 3"
  shows "0 < sin x" and "1 / 2 \<le> cos x" and "0 < cos x" and "cos x \<le> 1"
proof -
  have "x < pi"
    using assms pi_gt_zero by linarith
  then show "0 < sin x"
    using assms(1) by (rule sin_gt_zero [rotated])
  have "cos (pi / 3) \<le> cos x"
    using assms pi_gt_zero by (intro cos_monotone_0_pi_le) linarith+
  then show "1 / 2 \<le> cos x"
    by (simp add: cos_60)
  then show "0 < cos x"
    by linarith
  show "cos x \<le> 1"
    by simp
qed

lemma cot_gt_tan:
  fixes x y :: real
  assumes x: "0 < x" "x \<le> pi / 3" and y: "0 < y" "y \<le> pi / 3" and sum: "x + y < pi / 2"
  shows "sin x / cos x < 1 / (sin y / cos y)"
proof -
  note tx = angle_trig [OF x] and ty = angle_trig [OF y]
  have "0 < cos (x + y)"
    using x(1) y(1) sum by (intro cos_gt_zero_pi) linarith+
  then have "sin x * sin y < cos x * cos y"
    by (simp add: cos_add)
  then have "sin x / cos x < cos y / sin y"
    using tx(3) ty(1) by (simp add: field_simps)
  then show ?thesis
    by simp
qed

lemma ratio_bounds:
  fixes t k :: real
  assumes "0 < t" "t < k"
  shows "0 < (k - t) / (k + t)" and "(k - t) / (k + t) < 1"
  using assms by simp_all

lemma center_facts:
  fixes rho c :: real
  assumes rho: "0 < rho" "rho < 1" and c: "0 < c" "c \<le> 1"
  defines "rS \<equiv> sqrt rho"
  defines "cX \<equiv> 1 / 2 * (rS * rS + 1) / (rS * c)"
  shows "0 < rS" and "rS * c \<noteq> 0" and "1 < cX * c" and "1 < cX"
    and "cX * cX + (- 2 * c * cX + rS) * rS = cX * cX - 1"
proof -
  show rS: "0 < rS"
    unfolding rS_def using rho by simp
  have rS1: "rS < 1"
    unfolding rS_def using rho by simp
  show nz: "rS * c \<noteq> 0"
    using rS c by simp
  have "0 < (1 - rS) * (1 - rS)"
    using rS1 by simp
  then have am: "2 * rS < rS * rS + 1"
    by (simp add: algebra_simps)
  have cXc: "cX * c = (rS * rS + 1) / (2 * rS)"
    unfolding cX_def using rS c by (simp add: field_simps)
  show gt: "1 < cX * c"
    unfolding cXc using am rS by simp
  have "0 < cX"
    unfolding cX_def using rS c by (simp add: add_pos_nonneg)
  then have "cX * c \<le> cX * 1"
    using c by (intro mult_left_mono) simp_all
  then show "1 < cX"
    using gt by simp
  have "2 * (cX * c) * rS = rS * rS + 1"
    unfolding cXc using rS by simp
  then have "(- 2 * c * cX + rS) * rS = - 1"
    by (simp add: algebra_simps)
  then show "cX * cX + (- 2 * c * cX + rS) * rS = cX * cX - 1"
    by simp
qed

lemma v2_facts:
  fixes cX iR c s :: real
  assumes c: "0 < c" and unit: "c * c + s * s = 1" and gt: "1 < cX * c" and cX: "0 < cX"
    and iR: "iR * iR = cX * cX - 1"
  defines "m \<equiv> s / c"
  defines "A \<equiv> 1 + m * m"
  defines "B \<equiv> - 2 * (cX + m * 0)"
  defines "C \<equiv> cX * cX + 0 * 0 - iR * iR"
  defines "disc \<equiv> B * B - 4 * A * C"
  defines "x1 \<equiv> (- B + sqrt disc) / (2 * A)"
  defines "x2 \<equiv> (- B - sqrt disc) / (2 * A)"
  shows "\<not> disc < 0" and "0 < x2"
    and "\<not> sqrt (x1\<^sup>2 + (m * x1)\<^sup>2) < sqrt (x2\<^sup>2 + (m * x2)\<^sup>2)"
    and "x2\<^sup>2 + (m * x2)\<^sup>2 < 1"
proof -
  have A: "0 < A"
    unfolding A_def by (simp add: add_pos_nonneg)
  have "A * (c * c) = c * c + s * s"
    unfolding A_def m_def using c by (simp add: field_simps)
  then have Ac: "A * (c * c) = 1"
    by (simp only: unit)
  have B: "B = - 2 * cX" and C: "C = 1"
    unfolding B_def C_def iR by simp_all
  have "1 * 1 < (cX * c) * (cX * c)"
    using gt by (intro mult_strict_mono) simp_all
  then have "A * (c * c) < cX * cX * (c * c)"
    unfolding Ac by (simp add: algebra_simps)
  then have AcX: "A < cX * cX"
    using c by simp
  have disc: "disc = 4 * (cX * cX) - 4 * A"
    unfolding disc_def B C by simp
  have dpos: "0 < disc"
    unfolding disc using AcX by simp
  then show "\<not> disc < 0"
    by simp
  define sd where "sd = sqrt disc"
  have sd: "0 < sd" and sdsq: "sd * sd = disc"
    unfolding sd_def using dpos by simp_all
  have "disc < (2 * cX)\<^sup>2"
    unfolding disc using A by (simp add: power2_eq_square)
  then have "sd < sqrt ((2 * cX)\<^sup>2)"
    unfolding sd_def by (simp only: real_sqrt_less_iff)
  also have "sqrt ((2 * cX)\<^sup>2) = \<bar>2 * cX\<bar>"
    by (rule real_sqrt_abs)
  also have "\<dots> = 2 * cX"
    using cX by simp
  finally have sdlt: "sd < 2 * cX" .
  have x1: "x1 = (2 * cX + sd) / (2 * A)" and x2: "x2 = (2 * cX - sd) / (2 * A)"
    unfolding x1_def x2_def B sd_def by simp_all
  show x2pos: "0 < x2"
    unfolding x2 using sdlt A by simp
  have x12: "x2 < x1"
    unfolding x1 x2 using sd A by (simp add: divide_strict_right_mono)
  have prod: "A * (x1 * x2) = 1"
  proof -
    have "x1 * x2 = ((2 * cX) * (2 * cX) - sd * sd) / (4 * (A * A))"
      unfolding x1 x2 by (simp add: algebra_simps)
    also have "\<dots> = 4 * A / (4 * (A * A))"
      unfolding sdsq disc by simp
    also have "\<dots> = 1 / A"
      using A by simp
    finally show ?thesis
      using A by simp
  qed
  have n: "x\<^sup>2 + (m * x)\<^sup>2 = A * (x * x)" for x
    unfolding A_def by (simp add: power2_eq_square algebra_simps)
  have "x2 * x2 < x1 * x2"
    using x12 x2pos by simp
  then have "A * (x2 * x2) < A * (x1 * x2)"
    using A by simp
  then show "x2\<^sup>2 + (m * x2)\<^sup>2 < 1"
    unfolding n prod .
  have "x2 * x2 \<le> x1 * x1"
    using x12 x2pos by (intro mult_mono) simp_all
  then have "A * (x2 * x2) \<le> A * (x1 * x1)"
    using A by simp
  then show "\<not> sqrt (x1\<^sup>2 + (m * x1)\<^sup>2) < sqrt (x2\<^sup>2 + (m * x2)\<^sup>2)"
    unfolding n by simp
qed

lemma vertices_valid:
  fixes p q :: int
  assumes p: "3 \<le> p" and q: "3 \<le> q" and hyp: "4 < (p - 2) * (q - 2)"
  obtains cX iR x2 where
    "generateTilingParams_vertices (Fin (real_of_int p)) (Fin (real_of_int q))
       = \<lparr> vt_refDir = Cpx (Fin (cos (pi / real_of_int p))) (Fin (sin (pi / real_of_int p))),
           vt_invCen = Cpx (Fin cX) (Fin 0),
           vt_invRad = Fin iR,
           vt_V0 = Cpx (Fin 0) (Fin 0),
           vt_V1 = Cpx (Fin (cX - iR)) (Fin 0),
           vt_V2 = Some (Cpx (Fin x2)
                     (Fin (sin (pi / real_of_int p) / cos (pi / real_of_int p) * x2))) \<rparr>"
    and "1 < cX" and "0 < iR" and "iR * iR = cX * cX - 1" and "0 < x2"
    and "x2\<^sup>2 + (sin (pi / real_of_int p) / cos (pi / real_of_int p) * x2)\<^sup>2 < 1"
proof -
  define al where "al = pi / real_of_int p"
  define be where "be = pi / real_of_int q"
  note ang = valid_symbol_angles [OF p q hyp, folded al_def be_def]
  note ta = angle_trig [OF ang(1,2)] and tb = angle_trig [OF ang(3,4)]
  define c where "c = cos al"
  define s where "s = sin al"
  define k where "k = 1 / (sin be / cos be)"
  define t where "t = s / c"
  have cpos: "0 < c" and cle: "c \<le> 1" and chalf: "1 / 2 \<le> c" and spos: "0 < s"
    unfolding c_def s_def using ta by simp_all
  have tpos: "0 < t"
    unfolding t_def using cpos spos by simp
  have tk: "t < k"
    unfolding t_def k_def s_def c_def by (rule cot_gt_tan [OF ang(1,2) ang(3,4) ang(5)])
  define rho where "rho = (k - t) / (k + t)"
  note rb = ratio_bounds [OF tpos tk, folded rho_def]
  define rS where "rS = sqrt rho"
  define cX where "cX = 1 / 2 * (rS * rS + 1) / (rS * c)"
  note cf = center_facts [OF rb cpos cle, folded rS_def, folded cX_def]
  define iR where "iR = sqrt (cX * cX + (- 2 * c * cX + rS) * rS)"
  have cXpos: "0 < cX"
    using cf(4) by simp
  have "1 * 1 < cX * cX"
    using cf(4) by (intro mult_strict_mono) simp_all
  then have radpos: "0 < cX * cX - 1"
    by simp
  have iR': "iR = sqrt (cX * cX - 1)"
    unfolding iR_def cf(5) ..
  have iRpos: "0 < iR"
    unfolding iR' using radpos by simp
  have iRsq: "iR * iR = cX * cX - 1"
    unfolding iR' using radpos by simp
  have pnz: "real_of_int p \<noteq> 0" and qnz: "real_of_int q \<noteq> 0"
    using p q by simp_all
  have e1: "Math_PI / Fin (real_of_int p) = Fin al"
    using pnz by (simp add: Math_PI_def al_def)
  have e2: "versor (Fin al) = Cpx (Fin c) (Fin s)"
    by (simp add: versor_def c_def s_def)
  have e3: "Math_PI / Fin (real_of_int q) = Fin be"
    using qnz by (simp add: Math_PI_def be_def)
  have e4: "Fin 1 / Math_tan (Fin be) = Fin k"
    using tb(1,3) by (simp add: k_def)
  have e5: "Fin s / Fin c = Fin t"
    using cpos by (simp add: t_def)
  have kt: "k + t \<noteq> 0"
    using tpos tk by simp
  have e6: "Math_sqrt ((Fin k - Fin t) / (Fin k + Fin t)) = Fin rS"
    using kt rb(1) by (simp add: rS_def rho_def [symmetric] not_less less_imp_le)
  have e7: "Fin (1 / 2) * (Fin rS * Fin rS + Fin 1) / (Fin rS * Fin c) = Fin cX"
    using cf(2) by (simp add: cX_def)
  have e8a: "Fin cX * Fin cX + (Fin (- 2) * Fin c * Fin cX + Fin rS) * Fin rS = Fin (cX * cX - 1)"
    by (simp only: Fin_times Fin_plus cf(5))
  have e8: "Math_sqrt (Fin cX * Fin cX + (Fin (- 2) * Fin c * Fin cX + Fin rS) * Fin rS) = Fin iR"
    unfolding e8a iR' using radpos by simp
  have n0: "getNorm (csub (Cpx (Fin cX) (Fin 0)) (Cpx (Fin 0) (Fin 0))) = Fin cX"
    using cXpos by (simp add: getNorm_csub_Fin)
  have e9: "getNormalized (csub (Cpx (Fin cX) (Fin 0)) (Cpx (Fin 0) (Fin 0))) = Cpx (Fin 1) (Fin 0)"
    unfolding getNormalized_def n0 using cXpos by (simp add: csub_def divRe_def mulRe_def)
  have e10: "getNorm (csub (Cpx (Fin cX) (Fin 0)) (Cpx (Fin 0) (Fin 0))) - Fin iR = Fin (cX - iR)"
    unfolding n0 by simp
  have e11: "mulRe (Cpx (Fin 1) (Fin 0)) (Fin (cX - iR)) = Cpx (Fin (cX - iR)) (Fin 0)"
    by (simp add: mulRe_def)
  define A where "A = 1 + t * t"
  define B where "B = - 2 * (cX + t * 0)"
  define C where "C = cX * cX + 0 * 0 - iR * iR"
  define disc where "disc = B * B - 4 * A * C"
  define x1 where "x1 = (- B + sqrt disc) / (2 * A)"
  define x2 where "x2 = (- B - sqrt disc) / (2 * A)"
  have unit: "c * c + s * s = 1"
    unfolding c_def s_def by (rule sin_cos_squared_add3)
  note v2 = v2_facts [OF cpos unit cf(3) cXpos iRsq, folded t_def, folded A_def,
      folded B_def C_def, folded disc_def, folded x1_def x2_def]
  have nv: "1 / 10 ^ 12 < \<bar>c\<bar>"
    using chalf by simp
  note cl = iCOL_nonvertical [where cx = cX and cy = 0 and r = iR and dx = c and dy = s,
      OF nv, folded t_def, folded A_def, folded B_def C_def, folded disc_def,
      folded x1_def x2_def]
  have e12: "intersectCircleWithOriginLine (Cpx (Fin cX) (Fin 0)) (Fin iR) (Cpx (Fin c) (Fin s))
      = Some (Cpx (Fin x2) (Fin (t * x2)))"
    unfolding cl using v2(1,3) by simp
  have rec: "generateTilingParams_vertices (Fin (real_of_int p)) (Fin (real_of_int q))
       = \<lparr> vt_refDir = Cpx (Fin c) (Fin s),
           vt_invCen = Cpx (Fin cX) (Fin 0),
           vt_invRad = Fin iR,
           vt_V0 = Cpx (Fin 0) (Fin 0),
           vt_V1 = Cpx (Fin (cX - iR)) (Fin 0),
           vt_V2 = Some (Cpx (Fin x2) (Fin (t * x2))) \<rparr>"
    unfolding generateTilingParams_vertices_def Let_def
    by (simp only: e1 e2 e3 e4 e5 e6 e7 e8 e9 e10 e11 e12 cpx.sel)
  show thesis
  proof (rule that [of cX iR x2])
    show "generateTilingParams_vertices (Fin (real_of_int p)) (Fin (real_of_int q))
       = \<lparr> vt_refDir = Cpx (Fin (cos (pi / real_of_int p))) (Fin (sin (pi / real_of_int p))),
           vt_invCen = Cpx (Fin cX) (Fin 0),
           vt_invRad = Fin iR,
           vt_V0 = Cpx (Fin 0) (Fin 0),
           vt_V1 = Cpx (Fin (cX - iR)) (Fin 0),
           vt_V2 = Some (Cpx (Fin x2)
                     (Fin (sin (pi / real_of_int p) / cos (pi / real_of_int p) * x2))) \<rparr>"
      unfolding rec t_def s_def c_def al_def ..
    show "1 < cX" by (rule cf(4))
    show "0 < iR" by (rule iRpos)
    show "iR * iR = cX * cX - 1" by (rule iRsq)
    show "0 < x2" by (rule v2(2))
    show "x2\<^sup>2 + (sin (pi / real_of_int p) / cos (pi / real_of_int p) * x2)\<^sup>2 < 1"
      using v2(4) unfolding t_def s_def c_def al_def .
  qed
qed

lemma V1_norm_bounds:
  fixes cX iR :: real
  assumes "1 < cX" "0 < iR" "iR * iR = cX * cX - 1"
  shows "0 < cX - iR" and "cX - iR < 1"
proof -
  have a: "iR\<^sup>2 < cX\<^sup>2"
    using assms(3) by (simp add: power2_eq_square)
  have "iR < cX"
  proof (rule power2_less_imp_less)
    show "iR\<^sup>2 < cX\<^sup>2" by (rule a)
    show "0 \<le> cX" using assms(1) by simp
  qed
  then show "0 < cX - iR"
    by simp
  have "(cX - 1)\<^sup>2 = cX * cX - 2 * cX + 1"
    by (simp add: power2_eq_square algebra_simps)
  also have "\<dots> < cX * cX - 1"
    using assms(1) by simp
  also have "\<dots> = iR\<^sup>2"
    unfolding assms(3) [symmetric] by (simp add: power2_eq_square)
  finally have b: "(cX - 1)\<^sup>2 < iR\<^sup>2" .
  have "cX - 1 < iR"
  proof (rule power2_less_imp_less)
    show "(cX - 1)\<^sup>2 < iR\<^sup>2" by (rule b)
    show "0 \<le> iR" using assms(2) by simp
  qed
  then show "cX - iR < 1"
    by simp
qed

lemma unit_circle_through_thick_point:
  "circleFrom3Points (Cpx (Fin (- 1)) (Fin 0)) (Cpx (Fin 1) (Fin 0)) (Cpx (Fin 0) (Fin 1))
   = \<lparr> center = Cpx (Fin 0) (Fin 0), radius = Fin 1 \<rparr>"
  by (simp add: circleFrom3Points_def Let_def getNorm_def normSq_def csub_def)

lemma unit_circle_through_direction:
  fixes u v :: real
  assumes unit: "u * u + v * v = 1"
  shows "circleFrom3Points (Cpx (Fin u) (Fin v)) (Cpx (Fin (- u)) (Fin (- v))) (Cpx (Fin v) (Fin (- u)))
         = \<lparr> center = Cpx (Fin 0) (Fin 0), radius = Fin 1 \<rparr>"
proof -
  have det: "(u - - u) * (v - - u) - (v - - v) * (u - v) = 2"
  proof -
    have "(u - - u) * (v - - u) - (v - - v) * (u - v) = 2 * (u * u + v * v)"
      by (simp add: algebra_simps)
    then show ?thesis
      by (simp only: unit)
  qed
  then have nz: "(u - - u) * (v - - u) - (v - - v) * (u - v) \<noteq> 0"
    by simp
  have r: "sqrt ((0 - u)\<^sup>2 + (0 - v)\<^sup>2) = 1"
  proof -
    have "(0 - u)\<^sup>2 + (0 - v)\<^sup>2 = u * u + v * v"
      by (simp add: power2_eq_square)
    then show ?thesis
      by (simp only: unit real_sqrt_one)
  qed
  have cx: "((v - - u) * ((u * u - - u * - u + v * v - - v * - v) * (1 / 2))
              - (v - - v) * ((u * u - v * v + v * v - - u * - u) * (1 / 2)))
            / ((u - - u) * (v - - u) - (v - - v) * (u - v)) = 0"
    by simp
  have cy: "(- (u - v) * ((u * u - - u * - u + v * v - - v * - v) * (1 / 2))
              + (u - - u) * ((u * u - v * v + v * v - - u * - u) * (1 / 2)))
            / ((u - - u) * (v - - u) - (v - - v) * (u - v)) = 0"
    by simp
  show ?thesis
    unfolding circleFrom3Points_finite [OF nz] cx cy r ..
qed

lemma normalized_direction:
  fixes u v x2 :: real
  assumes u: "0 < u" and unit: "u * u + v * v = 1" and x2: "0 < x2"
  defines "y2 \<equiv> v / u * x2"
  shows "getNorm (Cpx (Fin x2) (Fin y2)) = Fin (x2 / u)"
    and "divRe (Cpx (Fin x2) (Fin y2)) (Fin (x2 / u)) = Cpx (Fin u) (Fin v)"
    and "divRe (Cpx (Fin x2) (Fin y2)) (Fin (- (x2 / u))) = Cpx (Fin (- u)) (Fin (- v))"
proof -
  have "x2\<^sup>2 + y2\<^sup>2 = (x2 / u)\<^sup>2 * (u * u + v * v)"
    unfolding y2_def using u by (simp add: power2_eq_square field_simps)
  then have "x2\<^sup>2 + y2\<^sup>2 = (x2 / u)\<^sup>2"
    by (simp only: unit mult_1_right)
  then have "sqrt (x2\<^sup>2 + y2\<^sup>2) = \<bar>x2 / u\<bar>"
    by (simp only: real_sqrt_abs)
  then show "getNorm (Cpx (Fin x2) (Fin y2)) = Fin (x2 / u)"
    using u x2 by (simp add: getNorm_Fin)
  have nz: "x2 / u \<noteq> 0"
    using u x2 by simp
  show "divRe (Cpx (Fin x2) (Fin y2)) (Fin (x2 / u)) = Cpx (Fin u) (Fin v)"
    using u x2 by (simp add: divRe_def mulRe_def y2_def)
  show "divRe (Cpx (Fin x2) (Fin y2)) (Fin (- (x2 / u))) = Cpx (Fin (- u)) (Fin (- v))"
    using u x2 by (simp add: divRe_def mulRe_def y2_def)
qed

lemma thick_point_20:
  fixes u v :: real
  assumes unit: "u * u + v * v = 1"
  shows "applyMobiusTrans
           (MobiusMap3PointsTo_m101 (Cpx (Fin u) (Fin v)) (Cpx (Fin 0) (Fin 0))
              (Cpx (Fin (- u)) (Fin (- v))))
           (Cpx (Fin 0) (Fin 1)) True
         = Cpx (Fin v) (Fin (- u))"
proof -
  define w where "w = Complex u v"
  have w0: "w \<noteq> 0"
    unfolding w_def using unit by (auto simp: complex_eq_iff)
  have e: "Cpx (Fin u) (Fin v) = ofC w" "Cpx (Fin 0) (Fin 0) = ofC 0"
    "Cpx (Fin (- u)) (Fin (- v)) = ofC (- w)" "Cpx (Fin 0) (Fin 1) = ofC \<i>"
    "Cpx (Fin v) (Fin (- u)) = ofC (- (w * \<i>))"
    by (simp_all add: ofC_def w_def)
  have ne: "w \<noteq> 0" "(0 :: complex) \<noteq> - w" "w \<noteq> - w"
    using w0 by (simp_all add: eq_neg_iff_add_eq_0)
  define s where "s = mobius_sqrt w 0 (- w)"
  have s0: "s \<noteq> 0"
    unfolding s_def using ne by (rule mobius_sqrt_nonzero)
  define aa where "aa = (w - - w) / s"
  define bb where "bb = 0 * (- 1) * (w - - w) / s"
  define cc where "cc = (0 - w + (0 - - w)) / s"
  define dd where "dd = (w * (- 1) * (0 - - w) - - w * (0 - w)) / s"
  have cc0: "cc = 0" and bb0: "bb = 0"
    unfolding cc_def bb_def by simp_all
  have aa: "aa = 2 * w / s" and dd: "dd = - (2 * (w * w)) / s"
    unfolding aa_def dd_def by (simp_all add: algebra_simps)
  have nz: "aa - cc * \<i> \<noteq> 0"
    unfolding cc0 aa using w0 s0 by simp
  have val: "(dd * \<i> - bb) / (aa - cc * \<i>) = - (w * \<i>)"
    unfolding cc0 bb0 aa dd using w0 s0 by (simp add: field_simps)
  show ?thesis
    unfolding e Mobius_ofC [OF ne, folded s_def, folded aa_def bb_def cc_def dd_def]
      apply_inverted_ofC [OF nz] val ..
qed

lemma coincident_unit_circles:
  "circleCircleIntersections (Cpx (Fin 0) (Fin 0)) (Fin 1) (Cpx (Fin 0) (Fin 0)) (Fin 1) = []"
  by (simp add: circleCircleIntersections_def Let_def getNorm_csub_Fin)

lemma generateTilingParams_thickness_one:
  fixes p q :: int
  assumes "3 \<le> p" and "3 \<le> q" and "4 < (p - 2) * (q - 2)"
  shows "generateTilingParams (Fin (real_of_int p)) (Fin (real_of_int q)) (Fin 1) = Inl TypeError"
proof -
  define u where "u = cos (pi / real_of_int p)"
  define v where "v = sin (pi / real_of_int p)"
  obtain cX iR x2 where
    rec0: "generateTilingParams_vertices (Fin (real_of_int p)) (Fin (real_of_int q))
       = \<lparr> vt_refDir = Cpx (Fin (cos (pi / real_of_int p))) (Fin (sin (pi / real_of_int p))),
           vt_invCen = Cpx (Fin cX) (Fin 0),
           vt_invRad = Fin iR,
           vt_V0 = Cpx (Fin 0) (Fin 0),
           vt_V1 = Cpx (Fin (cX - iR)) (Fin 0),
           vt_V2 = Some (Cpx (Fin x2)
                     (Fin (sin (pi / real_of_int p) / cos (pi / real_of_int p) * x2))) \<rparr>"
    and x2: "0 < x2"
    by (rule vertices_valid [OF assms])
  define y2 where "y2 = v / u * x2"
  define n2 where "n2 = x2 / u"
  define v1 where "v1 = cX - iR"
  have rec: "generateTilingParams_vertices (Fin (real_of_int p)) (Fin (real_of_int q))
       = \<lparr> vt_refDir = Cpx (Fin u) (Fin v), vt_invCen = Cpx (Fin cX) (Fin 0), vt_invRad = Fin iR,
           vt_V0 = Cpx (Fin 0) (Fin 0), vt_V1 = Cpx (Fin v1) (Fin 0),
           vt_V2 = Some (Cpx (Fin x2) (Fin y2)) \<rparr>"
    unfolding rec0 u_def v_def y2_def v1_def ..
  note ang = valid_symbol_angles [OF assms]
  have upos: "0 < u"
    unfolding u_def using angle_trig(3) [OF ang(1,2)] .
  have unit: "u * u + v * v = 1"
    unfolding u_def v_def by (rule sin_cos_squared_add3)
  note nd = normalized_direction [OF upos unit x2, folded y2_def, folded n2_def]
  have m01: "applyMobiusTrans
       (MobiusMap3PointsTo_m101 (Cpx (Fin (- 1)) (Fin 0)) (Cpx (Fin 0) (Fin 0)) (Cpx (Fin 1) (Fin 0)))
       (Cpx (Fin 0) (Fin 1)) True = Cpx (Fin 0) (Fin 1)"
    unfolding MMap01_value by (rule apply_MMap01_forward)
  show ?thesis
    unfolding generateTilingParams_def rec
    by (simp add: Let_def m01 unit_circle_through_thick_point nd thick_point_20 [OF unit]
        unit_circle_through_direction [OF unit] coincident_unit_circles
        split: list.splits)
qed

lemma generateTilingParams_returns_vertices:
  assumes "generateTilingParams p q edgeThickness = Inr t"
  shows "tp_V0 t = vt_V0 (generateTilingParams_vertices p q)
       \<and> tp_V1 t = vt_V1 (generateTilingParams_vertices p q)
       \<and> vt_V2 (generateTilingParams_vertices p q) = Some (tp_V2 t)
       \<and> tp_invCen t = vt_invCen (generateTilingParams_vertices p q)
       \<and> tp_invRad t = vt_invRad (generateTilingParams_vertices p q)"
  using assms unfolding generateTilingParams_def Let_def
  by (auto split: list.splits option.splits)

text \<open>
  Claim C5 says that \<^verbatim>\<open>generateTilingParams\<close> succeeds for every valid \<open>(p, q)\<close> and
  every positive edge thickness. It does not. The thick-edge circles of the edges \<open>V0V1\<close>
  and \<open>V2V0\<close> are searched for an intersection inside the fundamental triangle; when
  there is none, \<^verbatim>\<open>filter(...)[0]\<close> is \<^verbatim>\<open>undefined\<close> and the generator ends in the
  \<^verbatim>\<open>TypeError\<close> of \<^verbatim>\<open>enlargedCircleAtPoint(undefined, ...)\<close>. For the thickness \<open>1\<close> the
  thickening point \<open>(0, 1)\<close> lies on the unit circle, both circles are the unit circle,
  and \<^verbatim>\<open>circleCircleIntersections\<close> finds them coincident and returns no point; so for
  \<open>(4, 5)\<close>, the symbol the application starts with.
\<close>

theorem generateTilingParams_thickness_one_counterexample:
  "(3 :: int) \<le> 4 \<and> (3 :: int) \<le> 5 \<and> 4 < ((4 :: int) - 2) * (5 - 2) \<and> (0 :: real) < 1
   \<and> generateTilingParams (Fin 4) (Fin 5) (Fin 1) = Inl TypeError"
  using generateTilingParams_thickness_one [of 4 5] by simp

text \<open>
  The vertices in real arithmetic. For all integers \<open>p \<ge> 3\<close>, \<open>q \<ge> 3\<close> with
  \<open>(p - 2) (q - 2) > 4\<close> the vertex part of \<^verbatim>\<open>generateTilingParams\<close>, which does not depend
  on the edge thickness, yields \<open>V0 = (0, 0)\<close>, a finite \<open>V1\<close> with \<open>|V1| < 1\<close> and a \<open>V2\<close>
  that is not \<^verbatim>\<open>null\<close>, finite, with \<open>|V2| < 1\<close>. By
  \<open>generateTilingParams_returns_vertices\<close> these are the vertices of every descriptor
  that the generator returns.
\<close>

theorem generateTilingParams_vertices_in_disk:
  fixes p q :: int
  assumes "3 \<le> p" and "3 \<le> q" and "4 < (p - 2) * (q - 2)"
  shows "vt_V0 (generateTilingParams_vertices (Fin (real_of_int p)) (Fin (real_of_int q)))
           = Cpx (Fin 0) (Fin 0)
       \<and> finiteC (vt_V1 (generateTilingParams_vertices (Fin (real_of_int p)) (Fin (real_of_int q))))
       \<and> getNorm (vt_V1 (generateTilingParams_vertices (Fin (real_of_int p)) (Fin (real_of_int q))))
           < Fin 1
       \<and> (\<exists>V2. vt_V2 (generateTilingParams_vertices (Fin (real_of_int p)) (Fin (real_of_int q)))
                  = Some V2
               \<and> finiteC V2 \<and> getNorm V2 < Fin 1)"
proof -
  obtain cX iR x2 where
    rec: "generateTilingParams_vertices (Fin (real_of_int p)) (Fin (real_of_int q))
       = \<lparr> vt_refDir = Cpx (Fin (cos (pi / real_of_int p))) (Fin (sin (pi / real_of_int p))),
           vt_invCen = Cpx (Fin cX) (Fin 0),
           vt_invRad = Fin iR,
           vt_V0 = Cpx (Fin 0) (Fin 0),
           vt_V1 = Cpx (Fin (cX - iR)) (Fin 0),
           vt_V2 = Some (Cpx (Fin x2)
                     (Fin (sin (pi / real_of_int p) / cos (pi / real_of_int p) * x2))) \<rparr>"
    and cX: "1 < cX" and iR: "0 < iR" and sq: "iR * iR = cX * cX - 1" and x2: "0 < x2"
    and n2: "x2\<^sup>2 + (sin (pi / real_of_int p) / cos (pi / real_of_int p) * x2)\<^sup>2 < 1"
    by (rule vertices_valid [OF assms])
  note b = V1_norm_bounds [OF cX iR sq]
  have "getNorm (Cpx (Fin (cX - iR)) (Fin 0)) = Fin (cX - iR)"
    using b(1) by (simp add: getNorm_Fin)
  moreover have "getNorm (Cpx (Fin x2) (Fin (sin (pi / real_of_int p) / cos (pi / real_of_int p) * x2)))
      < Fin 1"
    using n2 by (simp add: getNorm_Fin real_sqrt_lt_1_iff)
  ultimately show ?thesis
    unfolding rec using b(2) by (simp add: finiteC_def)
qed

theorem generateTilingParams_vertices_in_disk_witness:
  "(3 :: int) \<le> 4 \<and> (3 :: int) \<le> 5 \<and> 4 < ((4 :: int) - 2) * (5 - 2)
   \<and> vt_V0 (generateTilingParams_vertices (Fin 4) (Fin 5)) = Cpx (Fin 0) (Fin 0)
   \<and> finiteC (vt_V1 (generateTilingParams_vertices (Fin 4) (Fin 5)))
   \<and> getNorm (vt_V1 (generateTilingParams_vertices (Fin 4) (Fin 5))) < Fin 1
   \<and> (\<exists>V2. vt_V2 (generateTilingParams_vertices (Fin 4) (Fin 5)) = Some V2
           \<and> finiteC V2 \<and> getNorm V2 < Fin 1)"
  using generateTilingParams_vertices_in_disk [of 4 5] by simp

end
